theory Spec2Isabelle
  imports Complex_Main "HOL-Library.Sublist" "HOL-Library.AList" "HOL-Library.Multiset"
begin

section \<open>JavaScript values\<close>

text \<open>
  The dashboard component (\<^verbatim>\<open>Dashboard.tsx\<close>, in two variants whose filtering core is
  identical) is a pure pipeline over rows of cells. This section models the values of the
  language it is written in, as far as the pipeline touches them.

  A JavaScript number is \<open>NaN\<close>, an infinity or a finite value. Finite values are kept as
  exact rationals: rounding to binary64 (and with it overflow to an infinity) and the sign
  of zero are not modelled, every other case distinction of the arithmetic operators is.
\<close>

datatype jsnum = NaN | Fin rat | PInf | NInf

fun jsNeg :: "jsnum \<Rightarrow> jsnum" where
  "jsNeg NaN = NaN"
| "jsNeg (Fin a) = Fin (- a)"
| "jsNeg PInf = NInf"
| "jsNeg NInf = PInf"

fun jsAdd :: "jsnum \<Rightarrow> jsnum \<Rightarrow> jsnum" where
  "jsAdd NaN _ = NaN"
| "jsAdd _ NaN = NaN"
| "jsAdd (Fin a) (Fin b) = Fin (a + b)"
| "jsAdd PInf NInf = NaN"
| "jsAdd NInf PInf = NaN"
| "jsAdd PInf _ = PInf"
| "jsAdd _ PInf = PInf"
| "jsAdd NInf _ = NInf"
| "jsAdd _ NInf = NInf"

definition jsSub :: "jsnum \<Rightarrow> jsnum \<Rightarrow> jsnum" where
  "jsSub a b = jsAdd a (jsNeg b)"




text \<open>\<^verbatim>\<open>a < b\<close> and \<^verbatim>\<open>a > b\<close> on numbers: every comparison with \<open>NaN\<close> is false.\<close>

fun jsLess :: "jsnum \<Rightarrow> jsnum \<Rightarrow> bool" where
  "jsLess NaN _ = False"
| "jsLess _ NaN = False"
| "jsLess (Fin a) (Fin b) = (a < b)"
| "jsLess (Fin a) PInf = True"
| "jsLess (Fin a) NInf = False"
| "jsLess PInf _ = False"
| "jsLess NInf NInf = False"
| "jsLess NInf _ = True"

definition jsGreater :: "jsnum \<Rightarrow> jsnum \<Rightarrow> bool" where
  "jsGreater a b = jsLess b a"

text \<open>Truthiness of a number: everything but \<open>NaN\<close> and zero.\<close>

definition truthyNum :: "jsnum \<Rightarrow> bool" where
  "truthyNum n = (n \<noteq> NaN \<and> n \<noteq> Fin 0)"

text \<open>\<^verbatim>\<open>n || 0\<close>.\<close>

definition orZero :: "jsnum \<Rightarrow> jsnum" where
  "orZero n = (if truthyNum n then n else Fin 0)"

text \<open>\<open>ToIntegerOrInfinity\<close> on a finite value: truncation towards zero.\<close>

definition truncRat :: "rat \<Rightarrow> int" where
  "truncRat q = (if 0 \<le> q then \<lfloor>q\<rfloor> else \<lceil>q\<rceil>)"

subsection \<open>Strings\<close>

text \<open>
  Strings are lists of 8-bit characters. The model is exact on ASCII text; letters outside
  ASCII are left alone by \<open>toLowerCase\<close>, and only the ASCII white space characters count
  as white space.
\<close>

definition lowerChar :: "char \<Rightarrow> char" where
  "lowerChar c =
     (case map_of (zip ''ABCDEFGHIJKLMNOPQRSTUVWXYZ'' ''abcdefghijklmnopqrstuvwxyz'') c of
        Some l \<Rightarrow> l
      | None \<Rightarrow> c)"

definition toLowerCase :: "string \<Rightarrow> string" where
  "toLowerCase s = map lowerChar s"

text \<open>\<^verbatim>\<open>s.includes(k)\<close>: \<open>k\<close> occurs in \<open>s\<close> as a contiguous substring.\<close>

fun includes_str :: "string \<Rightarrow> string \<Rightarrow> bool" where
  "includes_str [] k = (k = [])"
| "includes_str (c # s) k = (prefix k (c # s) \<or> includes_str s k)"

text \<open>\<^verbatim>\<open>s.split(sep)\<close> for a separator of one character.\<close>

fun split_on :: "char \<Rightarrow> string \<Rightarrow> string list" where
  "split_on sep [] = [[]]"
| "split_on sep (c # s) =
     (if c = sep then [] # split_on sep s
      else (case split_on sep s of [] \<Rightarrow> [[c]] | p # ps \<Rightarrow> (c # p) # ps))"

definition isWhiteSpace :: "char \<Rightarrow> bool" where
  "isWhiteSpace c = (c \<in> set [CHR 0x09, CHR 0x0A, CHR 0x0B, CHR 0x0C, CHR 0x0D, CHR 0x20])"

definition trim :: "string \<Rightarrow> string" where
  "trim s = rev (dropWhile isWhiteSpace (rev (dropWhile isWhiteSpace s)))"

definition isDigit :: "char \<Rightarrow> bool" where
  "isDigit c = (c \<in> set ''0123456789'')"

definition digitVal :: "char \<Rightarrow> int" where
  "digitVal c =
     (case map_of (zip ''0123456789'' [0, 1, 2, 3, 4, 5, 6, 7, 8, 9]) c of
        Some v \<Rightarrow> v
      | None \<Rightarrow> 0)"

text \<open>The value of a string of decimal digits, most significant first.\<close>

definition digitsVal :: "string \<Rightarrow> int" where
  "digitsVal s = foldl (\<lambda>acc c. 10 * acc + digitVal c) 0 s"

definition digitChar :: "int \<Rightarrow> char" where
  "digitChar n = ''0123456789'' ! nat (n mod 10)"

text \<open>The decimal digits of a whole number that is not negative.\<close>

function intToString :: "int \<Rightarrow> string" where
  "intToString n = (if n < 10 then [digitChar n] else intToString (n div 10) @ [digitChar n])"
  by pat_completeness auto
termination
  by (relation "measure nat") auto

subsection \<open>String to number\<close>

text \<open>
  \<open>StringToNumber\<close>, which \<^verbatim>\<open>Number(s)\<close> applies to a string: white space is trimmed, the
  empty string is 0, and the rest must be a decimal literal (optional sign, \<^verbatim>\<open>Infinity\<close>,
  digits with an optional fraction and exponent) or an unsigned binary, octal or hexadecimal
  integer literal; everything else is \<open>NaN\<close>.
\<close>

definition scale10 :: "int \<Rightarrow> int \<Rightarrow> rat" where
  "scale10 m e = (if 0 \<le> e then of_int m * 10 ^ nat e else of_int m / 10 ^ nat (- e))"

text \<open>The exponent part: nothing, or \<^verbatim>\<open>e\<close>/\<^verbatim>\<open>E\<close>, an optional sign and at least one digit.\<close>

definition exponentPart :: "string \<Rightarrow> int option" where
  "exponentPart s =
     (case s of
        [] \<Rightarrow> Some 0
      | c # r \<Rightarrow>
          if c = CHR ''e'' \<or> c = CHR ''E'' then
            (let (neg, ds) =
               (case r of
                  [] \<Rightarrow> (False, [])
                | d # r' \<Rightarrow>
                    if d = CHR ''-'' then (True, r')
                    else if d = CHR ''+'' then (False, r')
                    else (False, r))
             in if ds \<noteq> [] \<and> list_all isDigit ds
                then Some (if neg then - digitsVal ds else digitsVal ds)
                else None)
          else None)"

definition unsignedDecimal :: "string \<Rightarrow> jsnum" where
  "unsignedDecimal s =
     (if s = ''Infinity'' then PInf
      else
        (let ip = takeWhile isDigit s;
             r1 = dropWhile isDigit s;
             dot = (r1 \<noteq> [] \<and> hd r1 = CHR ''.'');
             fp = (if dot then takeWhile isDigit (tl r1) else []);
             r2 = (if dot then dropWhile isDigit (tl r1) else r1)
         in if ip = [] \<and> fp = [] then NaN
            else (case exponentPart r2 of
                    None \<Rightarrow> NaN
                  | Some e \<Rightarrow> Fin (scale10 (digitsVal (ip @ fp)) (e - int (length fp))))))"

definition radixDigit :: "char \<Rightarrow> int option" where
  "radixDigit c =
     map_of (zip ''0123456789abcdefABCDEF''
               [0, 1, 2, 3, 4, 5, 6, 7, 8, 9, 10, 11, 12, 13, 14, 15, 10, 11, 12, 13, 14, 15]) c"

definition radixLiteral :: "int \<Rightarrow> string \<Rightarrow> jsnum" where
  "radixLiteral b ds =
     (if ds \<noteq> [] \<and> list_all (\<lambda>c. case radixDigit c of None \<Rightarrow> False | Some v \<Rightarrow> v < b) ds
      then Fin (of_int (foldl (\<lambda>acc c. b * acc + the (radixDigit c)) 0 ds))
      else NaN)"

definition StringToNumber :: "string \<Rightarrow> jsnum" where
  "StringToNumber str =
     (let s = trim str
      in if s = [] then Fin 0
         else if take 2 s \<in> set [''0x'', ''0X''] then radixLiteral 16 (drop 2 s)
         else if take 2 s \<in> set [''0o'', ''0O''] then radixLiteral 8 (drop 2 s)
         else if take 2 s \<in> set [''0b'', ''0B''] then radixLiteral 2 (drop 2 s)
         else if hd s = CHR ''-'' then jsNeg (unsignedDecimal (tl s))
         else if hd s = CHR ''+'' then unsignedDecimal (tl s)
         else unsignedDecimal s)"

subsection \<open>Cells and rows\<close>

text \<open>
  Modelled from the spec: the cell and row types of \<^verbatim>\<open>DashboardData\<close>, declared in
  \<^verbatim>\<open>../types\<close>, which is not among the sources. A cell holds a string or a number. A row
  is an object whose properties are the header names: an absent property reads as
  \<^verbatim>\<open>undefined\<close>, here \<open>None\<close>. Rows are looked up by own properties only; header names
  that collide with the properties every object inherits (such as \<^verbatim>\<open>constructor\<close>) are
  outside the model.
\<close>

datatype cell = Str string | Num jsnum

type_synonym row = "string \<Rightarrow> cell option"

text \<open>
  What the component takes from the engine and the machine it runs on: the offset of the
  local time zone from UTC in milliseconds (one constant offset: daylight saving changes
  are not modelled), \<open>Number::toString\<close>, and \<^verbatim>\<open>Date.parse\<close> on the strings that are not a
  calendar date in the ISO form \<^verbatim>\<open>YYYY-MM-DD\<close> (date-time forms and the formats an engine
  accepts beyond the standard). The last two are left open: every theorem holds whatever
  they return.
\<close>

record runtime =
  LocalTZA :: int
  NumberToString :: "jsnum \<Rightarrow> string"
  DateParseOther :: "string \<Rightarrow> int option"

text \<open>\<^verbatim>\<open>Number(v)\<close>, \<^verbatim>\<open>String(v)\<close> and the truthiness of a cell that may be absent.\<close>

fun ToNumber :: "cell option \<Rightarrow> jsnum" where
  "ToNumber None = NaN"
| "ToNumber (Some (Num n)) = n"
| "ToNumber (Some (Str s)) = StringToNumber s"

fun ToString :: "runtime \<Rightarrow> cell option \<Rightarrow> string" where
  "ToString rt None = ''undefined''"
| "ToString rt (Some (Str s)) = s"
| "ToString rt (Some (Num n)) = NumberToString rt n"

fun ToBoolean :: "cell option \<Rightarrow> bool" where
  "ToBoolean None = False"
| "ToBoolean (Some (Str s)) = (s \<noteq> [])"
| "ToBoolean (Some (Num n)) = truthyNum n"

text \<open>\<^verbatim>\<open>v || 'placeholder'\<close>.\<close>

definition orString :: "cell option \<Rightarrow> string \<Rightarrow> cell option" where
  "orString v d = (if ToBoolean v then v else Some (Str d))"

text \<open>\<^verbatim>\<open>col || ''\<close> for a column name that may be undefined.\<close>

definition orEmpty :: "string option \<Rightarrow> string" where
  "orEmpty col = (case col of None \<Rightarrow> [] | Some c \<Rightarrow> c)"

section \<open>Dates\<close>

text \<open>
  A \<^verbatim>\<open>Date\<close> object wraps a time value: a whole number of milliseconds since the epoch, or
  \<open>NaN\<close> (an invalid date), here \<open>None\<close>. The day and calendar functions are those of the
  language standard.
\<close>

datatype jsdate = DateObj (getTime: "int option")

definition msPerDay :: int where
  "msPerDay = 86400000"

definition Day :: "int \<Rightarrow> int" where
  "Day t = t div msPerDay"

definition TimeWithinDay :: "int \<Rightarrow> int" where
  "TimeWithinDay t = t mod msPerDay"

definition DaysInYear :: "int \<Rightarrow> int" where
  "DaysInYear y =
     (if y mod 4 \<noteq> 0 then 365 else if y mod 100 \<noteq> 0 then 366
      else if y mod 400 \<noteq> 0 then 365 else 366)"

definition DayFromYear :: "int \<Rightarrow> int" where
  "DayFromYear y =
     365 * (y - 1970) + (y - 1969) div 4 - (y - 1901) div 100 + (y - 1601) div 400"

text \<open>
  The year of a day number: the largest year that starts on or before the day. The
  estimate from the mean length of a year is off by at most one.
\<close>

definition YearFromDay :: "int \<Rightarrow> int" where
  "YearFromDay d =
     (let y = 1970 + (400 * d) div 146097
      in if DayFromYear (y + 1) \<le> d then y + 1 else if DayFromYear y \<le> d then y else y - 1)"

definition YearFromTime :: "int \<Rightarrow> int" where
  "YearFromTime t = YearFromDay (Day t)"

definition InLeapYear :: "int \<Rightarrow> int" where
  "InLeapYear t = (if DaysInYear (YearFromTime t) = 366 then 1 else 0)"

definition DayWithinYear :: "int \<Rightarrow> int" where
  "DayWithinYear t = Day t - DayFromYear (YearFromTime t)"

text \<open>The day within the year on which month \<open>m\<close> (0 to 11) starts.\<close>

definition monthStart :: "int \<Rightarrow> int \<Rightarrow> int" where
  "monthStart m leap =
     (if m = 0 then 0 else if m = 1 then 31
      else [59, 90, 120, 151, 181, 212, 243, 273, 304, 334] ! nat (m - 2) + leap)"

definition monthOfYearDay :: "int \<Rightarrow> int \<Rightarrow> int" where
  "monthOfYearDay d leap =
     (if d < 31 then 0 else if d < 59 + leap then 1 else if d < 90 + leap then 2
      else if d < 120 + leap then 3 else if d < 151 + leap then 4
      else if d < 181 + leap then 5 else if d < 212 + leap then 6
      else if d < 243 + leap then 7 else if d < 273 + leap then 8
      else if d < 304 + leap then 9 else if d < 334 + leap then 10 else 11)"

definition MonthFromTime :: "int \<Rightarrow> int" where
  "MonthFromTime t = monthOfYearDay (DayWithinYear t) (InLeapYear t)"

definition DateFromTime :: "int \<Rightarrow> int" where
  "DateFromTime t = DayWithinYear t - monthStart (MonthFromTime t) (InLeapYear t) + 1"

definition WeekDay :: "int \<Rightarrow> int" where
  "WeekDay t = (Day t + 4) mod 7"

text \<open>
  \<open>MakeDay\<close>, \<open>MakeTime\<close> and \<open>MakeDate\<close> on whole numbers: the day number of the first of
  the month, moved by the day of the month.
\<close>

definition MakeDay :: "int \<Rightarrow> int \<Rightarrow> int \<Rightarrow> int" where
  "MakeDay year month date =
     (let ym = year + month div 12;
          mn = month mod 12
      in DayFromYear ym + monthStart mn (if DaysInYear ym = 366 then 1 else 0) + date - 1)"

definition MakeTime :: "int \<Rightarrow> int \<Rightarrow> int \<Rightarrow> int \<Rightarrow> int" where
  "MakeTime hour minute sec ms = hour * 3600000 + minute * 60000 + sec * 1000 + ms"

definition MakeDate :: "int \<Rightarrow> int \<Rightarrow> int" where
  "MakeDate day time = day * msPerDay + time"

definition TimeClip :: "int \<Rightarrow> int option" where
  "TimeClip t = (if 8640000000000000 < \<bar>t\<bar> then None else Some t)"

definition LocalTime :: "runtime \<Rightarrow> int \<Rightarrow> int" where
  "LocalTime rt t = t + LocalTZA rt"

definition UTC :: "runtime \<Rightarrow> int \<Rightarrow> int" where
  "UTC rt t = t - LocalTZA rt"

text \<open>
  \<^verbatim>\<open>new Date(year, month, date)\<close> on numbers: a year from 0 to 99 means 1900 + year, the
  fields are truncated, and the date is read in local time. A field that is not finite
  gives an invalid date.
\<close>

definition MakeFullYear :: "jsnum \<Rightarrow> jsnum" where
  "MakeFullYear y =
     (case y of
        Fin q \<Rightarrow> (if 0 \<le> truncRat q \<and> truncRat q \<le> 99 then Fin (of_int (1900 + truncRat q)) else y)
      | _ \<Rightarrow> y)"

definition newDateYMD :: "runtime \<Rightarrow> jsnum \<Rightarrow> jsnum \<Rightarrow> jsnum \<Rightarrow> jsdate" where
  "newDateYMD rt year month date =
     (case (MakeFullYear year, month, date) of
        (Fin y, Fin m, Fin d) \<Rightarrow>
          DateObj (TimeClip (UTC rt (MakeDate (MakeDay (truncRat y) (truncRat m) (truncRat d))
                                              (MakeTime 0 0 0 0))))
      | _ \<Rightarrow> DateObj None)"

text \<open>
  \<^verbatim>\<open>new Date(string)\<close>. A calendar date \<^verbatim>\<open>YYYY-MM-DD\<close> is midnight of that day in UTC; what
  any other string parses to is the runtime's.
\<close>

definition DaysInMonth :: "int \<Rightarrow> int \<Rightarrow> int" where
  "DaysInMonth y m =
     (let leap = (if DaysInYear y = 366 then 1 else 0)
      in (if m = 12 then 365 + leap else monthStart m leap) - monthStart (m - 1) leap)"

definition parseISODate :: "string \<Rightarrow> int option" where
  "parseISODate s =
     (if length s = 10 \<and> s ! 4 = CHR ''-'' \<and> s ! 7 = CHR ''-''
         \<and> list_all isDigit (take 4 s) \<and> list_all isDigit (take 2 (drop 5 s))
         \<and> list_all isDigit (drop 8 s)
      then (let y = digitsVal (take 4 s);
                m = digitsVal (take 2 (drop 5 s));
                d = digitsVal (drop 8 s)
            in if 1 \<le> m \<and> m \<le> 12 \<and> 1 \<le> d \<and> d \<le> DaysInMonth y m
               then Some (MakeDate (MakeDay y (m - 1) d) 0)
               else None)
      else None)"

definition newDateString :: "runtime \<Rightarrow> string \<Rightarrow> jsdate" where
  "newDateString rt s =
     DateObj (case parseISODate s of
                Some t \<Rightarrow> TimeClip t
              | None \<Rightarrow> (case DateParseOther rt s of None \<Rightarrow> None | Some t \<Rightarrow> TimeClip t))"

text \<open>The methods of \<^verbatim>\<open>Date\<close> the component calls, all in local time.\<close>

definition setHours :: "runtime \<Rightarrow> jsdate \<Rightarrow> int \<Rightarrow> int \<Rightarrow> int \<Rightarrow> int \<Rightarrow> jsdate" where
  "setHours rt d hour minute sec ms =
     (case getTime d of
        None \<Rightarrow> DateObj None
      | Some tv \<Rightarrow>
          DateObj (TimeClip (UTC rt (MakeDate (Day (LocalTime rt tv)) (MakeTime hour minute sec ms)))))"

definition getDate :: "runtime \<Rightarrow> jsdate \<Rightarrow> int option" where
  "getDate rt d = map_option (\<lambda>tv. DateFromTime (LocalTime rt tv)) (getTime d)"

definition setDate :: "runtime \<Rightarrow> jsdate \<Rightarrow> int option \<Rightarrow> jsdate" where
  "setDate rt d date =
     (case (getTime d, date) of
        (Some tv, Some dt) \<Rightarrow>
          (let t = LocalTime rt tv
           in DateObj (TimeClip (UTC rt (MakeDate (MakeDay (YearFromTime t) (MonthFromTime t) dt)
                                                  (TimeWithinDay t)))))
      | _ \<Rightarrow> DateObj None)"

definition padTo :: "nat \<Rightarrow> string \<Rightarrow> string" where
  "padTo n s = replicate (n - length s) (CHR ''0'') @ s"

definition toDateString :: "runtime \<Rightarrow> jsdate \<Rightarrow> string" where
  "toDateString rt d =
     (case getTime d of
        None \<Rightarrow> ''Invalid Date''
      | Some tv \<Rightarrow>
          (let t = LocalTime rt tv;
               y = YearFromTime t
           in [''Sun'', ''Mon'', ''Tue'', ''Wed'', ''Thu'', ''Fri'', ''Sat''] ! nat (WeekDay t)
              @ '' ''
              @ [''Jan'', ''Feb'', ''Mar'', ''Apr'', ''May'', ''Jun'', ''Jul'', ''Aug'', ''Sep'',
                 ''Oct'', ''Nov'', ''Dec''] ! nat (MonthFromTime t)
              @ '' '' @ padTo 2 (intToString (DateFromTime t))
              @ '' '' @ (if 0 \<le> y then [] else ''-'') @ padTo 4 (intToString \<bar>y\<bar>)))"

text \<open>
  \<^verbatim>\<open>a < b\<close> and \<^verbatim>\<open>a > b\<close> on dates compare the time values as numbers: false whenever one
  of them is \<open>NaN\<close>.
\<close>

definition dateLess :: "jsdate \<Rightarrow> jsdate \<Rightarrow> bool" where
  "dateLess a b =
     (case (getTime a, getTime b) of (Some x, Some y) \<Rightarrow> x < y | _ \<Rightarrow> False)"

definition dateGreater :: "jsdate \<Rightarrow> jsdate \<Rightarrow> bool" where
  "dateGreater a b = dateLess b a"

section \<open>The dashboard component\<close>

text \<open>
  Modelled from the spec: the type \<^verbatim>\<open>DashboardData\<close> of \<^verbatim>\<open>../types\<close>, which is not among
  the sources: an ordered list of header names and an ordered list of rows. Its third
  field, the declared type of every header, is read by none of the functions modelled
  here and is left out.
\<close>

record dashboard_data =
  headers :: "string list"
  rows :: "row list"

text \<open>
  The state of the component: the \<^verbatim>\<open>useState\<close> cells of \<^verbatim>\<open>Dashboard\<close>. Objects used as
  dictionaries (\<^verbatim>\<open>filters\<close>, \<^verbatim>\<open>columnSearchTerms\<close>, \<^verbatim>\<open>groupInvestments\<close>) are association
  lists in insertion order, which is the order \<^verbatim>\<open>Object.entries\<close> walks keys that are not
  array indices.
\<close>

datatype ViewMode = central | utmdash | graphs | database

datatype DatePreset = P_all | P_today | P_7days | P_15days | P_30days | P_custom

record dashboard_state =
  viewMode :: ViewMode
  filters :: "(string \<times> string list) list"
  columnSearchTerms :: "(string \<times> string) list"
  searchTerm :: string
  manualInvestment :: jsnum
  groupInvestments :: "(string \<times> jsnum) list"
  activeHeaderFilter :: "string option"
  datePreset :: DatePreset
  customStartDate :: string
  customEndDate :: string

text \<open>\<^verbatim>\<open>rowsWithIndex\<close>: every row gets the property \<^verbatim>\<open>_id\<close>, its position in \<^verbatim>\<open>data.rows\<close>.\<close>

definition withId :: "row \<Rightarrow> nat \<Rightarrow> row" where
  "withId r i = r(''_id'' \<mapsto> Num (Fin (of_nat i)))"

definition rowsWithIndex :: "dashboard_data \<Rightarrow> row list" where
  "rowsWithIndex data = map (\<lambda>(i, r). withId r i) (enumerate 0 (rows data))"

text \<open>
  \<^verbatim>\<open>findHeader\<close>: the header at the hint, when there is a non-empty one there; otherwise the
  result of \<^verbatim>\<open>headers.find\<close>, whose test is one disjunction of equality and containment.
\<close>

definition headerMatches :: "string list \<Rightarrow> string \<Rightarrow> bool" where
  "headerMatches keys h =
     list_ex (\<lambda>k. toLowerCase h = toLowerCase k \<or> includes_str (toLowerCase h) (toLowerCase k)) keys"

definition findHeader :: "string list \<Rightarrow> string list \<Rightarrow> nat option \<Rightarrow> string option" where
  "findHeader hs keys indexHint =
     (case indexHint of
        Some i \<Rightarrow> (if i < length hs \<and> hs ! i \<noteq> [] then Some (hs ! i) else find (headerMatches keys) hs)
      | None \<Rightarrow> find (headerMatches keys) hs)"

definition colData :: "dashboard_data \<Rightarrow> string option" where
  "colData data = findHeader (headers data) [''data'', ''data da venda''] (Some 1)"

definition colProduto :: "dashboard_data \<Rightarrow> string option" where
  "colProduto data = findHeader (headers data) [''produto'', ''nome do produto''] (Some 7)"

definition colFaturamento :: "dashboard_data \<Rightarrow> string option" where
  "colFaturamento data = findHeader (headers data) [''valor'', ''valor da venda'', ''venda''] (Some 11)"

definition colCampaign :: "dashboard_data \<Rightarrow> string option" where
  "colCampaign data = findHeader (headers data) [''utm_campaign'', ''campanha''] (Some 29)"

definition colTerm :: "dashboard_data \<Rightarrow> string option" where
  "colTerm data = findHeader (headers data) [''utm_term'', ''termo''] (Some 30)"

text \<open>
  \<^verbatim>\<open>parseBrazilianDate\<close>: \<^verbatim>\<open>null\<close> (here \<open>None\<close>) for a cell that is falsy or not a string;
  for a string whose part before the first space has three fields between slashes, the
  date built from them without any check; otherwise the date the string parses to, or
  \<^verbatim>\<open>null\<close> when that date is invalid.
\<close>

definition parseBrazilianDate :: "runtime \<Rightarrow> cell option \<Rightarrow> jsdate option" where
  "parseBrazilianDate rt dateStr =
     (case dateStr of
        Some (Str s) \<Rightarrow>
          (if s = [] then None
           else (let parts = split_on (CHR ''/'') (hd (split_on (CHR '' '') s))
                 in if length parts = 3
                    then Some (newDateYMD rt (StringToNumber (parts ! 2))
                                 (jsSub (StringToNumber (parts ! 1)) (Fin 1))
                                 (StringToNumber (parts ! 0)))
                    else (let isoDate = newDateString rt s
                          in if getTime isoDate = None then None else Some isoDate)))
      | _ \<Rightarrow> None)"

text \<open>\<^verbatim>\<open>toggleFilter\<close> and \<^verbatim>\<open>clearAllFilters\<close>, as functions on the state.\<close>

definition toggleFilter :: "string \<Rightarrow> string \<Rightarrow> dashboard_state \<Rightarrow> dashboard_state" where
  "toggleFilter column v st =
     (let prev = filters st;
          current = (case map_of prev column of Some l \<Rightarrow> l | None \<Rightarrow> []);
          updated = (if v \<in> set current then filter (\<lambda>x. x \<noteq> v) current else current @ [v])
      in st\<lparr>filters := AList.update column (if 0 < length updated then updated else []) prev\<rparr>)"

definition clearAllFilters :: "dashboard_state \<Rightarrow> dashboard_state" where
  "clearAllFilters st =
     st\<lparr>filters := [], searchTerm := [], columnSearchTerms := [], datePreset := P_all,
        activeHeaderFilter := None\<rparr>"

text \<open>
  The callback of \<^verbatim>\<open>filteredRows\<close>, in its three parts. \<open>clock\<close> is the time value every
  \<^verbatim>\<open>new Date()\<close> of one recomputation returns: the recomputation is taken to happen at one
  instant.
\<close>

definition daysAgo :: "runtime \<Rightarrow> int \<Rightarrow> int \<Rightarrow> jsdate" where
  "daysAgo rt clock n =
     (let now = setHours rt (DateObj (Some clock)) 23 59 59 999;
          d = DateObj (Some clock)
      in setDate rt d (map_option (\<lambda>x. x - n) (getDate rt now)))"

definition datePasses :: "runtime \<Rightarrow> int \<Rightarrow> dashboard_state \<Rightarrow> string option \<Rightarrow> row \<Rightarrow> bool" where
  "datePasses rt clock st col r =
     (if col \<noteq> None \<and> col \<noteq> Some [] \<and> datePreset st \<noteq> P_all then
        (case parseBrazilianDate rt (r (the col)) of
           None \<Rightarrow> False
         | Some rowDate \<Rightarrow>
             (case datePreset st of
                P_today \<Rightarrow> toDateString rt rowDate = toDateString rt (DateObj (Some clock))
              | P_7days \<Rightarrow> \<not> dateLess rowDate (daysAgo rt clock 7)
              | P_15days \<Rightarrow> \<not> dateLess rowDate (daysAgo rt clock 15)
              | P_30days \<Rightarrow> \<not> dateLess rowDate (daysAgo rt clock 30)
              | P_custom \<Rightarrow>
                  (if customStartDate st \<noteq> [] \<and> customEndDate st \<noteq> [] then
                     (let start = newDateString rt (customStartDate st);
                          end = setHours rt (newDateString rt (customEndDate st)) 23 59 59 999
                      in \<not> (dateLess rowDate start \<or> dateGreater rowDate end))
                   else True)
              | P_all \<Rightarrow> True))
      else True)"

definition matchesFilters :: "runtime \<Rightarrow> (string \<times> string list) list \<Rightarrow> row \<Rightarrow> bool" where
  "matchesFilters rt fs r =
     list_all (\<lambda>(col, selectedValues).
        selectedValues = [] \<or> ToString rt (r col) \<in> set selectedValues) fs"

definition matchesSearch :: "runtime \<Rightarrow> string list \<Rightarrow> string \<Rightarrow> row \<Rightarrow> bool" where
  "matchesSearch rt hs term r =
     (term = [] \<or>
      list_ex (\<lambda>h. includes_str (toLowerCase (ToString rt (r h))) (toLowerCase term)) hs)"

definition includeRow :: "runtime \<Rightarrow> int \<Rightarrow> dashboard_data \<Rightarrow> dashboard_state \<Rightarrow> row \<Rightarrow> bool" where
  "includeRow rt clock data st r =
     (datePasses rt clock st (colData data) r
      \<and> matchesFilters rt (filters st) r
      \<and> matchesSearch rt (headers data) (searchTerm st) r)"

definition filteredRows :: "runtime \<Rightarrow> int \<Rightarrow> dashboard_data \<Rightarrow> dashboard_state \<Rightarrow> row list" where
  "filteredRows rt clock data st = filter (includeRow rt clock data st) (rowsWithIndex data)"

subsection \<open>The aggregations\<close>

text \<open>
  \<^verbatim>\<open>Array.prototype.sort\<close> with a comparison function: the sort is stable, and of two
  elements the first goes behind the second only when the comparison is positive (a \<open>NaN\<close>
  counts as zero). For a comparison that is no consistent order the standard leaves the
  order to the engine; the result is a permutation in any case.
\<close>

fun insertBy :: "('a \<Rightarrow> 'a \<Rightarrow> jsnum) \<Rightarrow> 'a \<Rightarrow> 'a list \<Rightarrow> 'a list" where
  "insertBy cmp x [] = [x]"
| "insertBy cmp x (y # ys) =
     (if jsGreater (cmp x y) (Fin 0) then y # insertBy cmp x ys else x # y # ys)"

definition sortBy :: "('a \<Rightarrow> 'a \<Rightarrow> jsnum) \<Rightarrow> 'a list \<Rightarrow> 'a list" where
  "sortBy cmp xs = foldr (insertBy cmp) xs []"

text \<open>\<^verbatim>\<open>Number(row[colFaturamento || '']) || 0\<close>, the revenue a row adds.\<close>

definition rowRevenue :: "dashboard_data \<Rightarrow> row \<Rightarrow> jsnum" where
  "rowRevenue data r = orZero (ToNumber (r (orEmpty (colFaturamento data))))"

text \<open>
  \<^verbatim>\<open>groupedData\<close> of the variant that keeps the sale dates: the groups are an object keyed
  by the cluster key, walked in insertion order by \<^verbatim>\<open>Object.values\<close> (a key holds two
  bars, so it is never an array index, nor a property an empty object inherits).
\<close>

record cluster =
  cKey :: string
  cProduct :: string
  cCampaign :: string
  cTerm :: string
  salesCount :: nat
  totalRevenue :: jsnum
  dates :: "string list"

definition clusterPart :: "runtime \<Rightarrow> string option \<Rightarrow> row \<Rightarrow> string" where
  "clusterPart rt col r = trim (ToString rt (orString (r (orEmpty col)) ''N/A''))"

definition clusterKey :: "runtime \<Rightarrow> dashboard_data \<Rightarrow> row \<Rightarrow> string" where
  "clusterKey rt data r =
     clusterPart rt (colProduto data) r @ ''|'' @ clusterPart rt (colCampaign data) r
       @ ''|'' @ clusterPart rt (colTerm data) r"

definition setAdd :: "string list \<Rightarrow> string \<Rightarrow> string list" where
  "setAdd xs x = (if x \<in> set xs then xs else xs @ [x])"

definition addToGroups :: "runtime \<Rightarrow> dashboard_data \<Rightarrow> cluster list \<Rightarrow> row \<Rightarrow> cluster list" where
  "addToGroups rt data groups r =
     (let prod = clusterPart rt (colProduto data) r;
          camp = clusterPart rt (colCampaign data) r;
          trm = clusterPart rt (colTerm data) r;
          k = prod @ ''|'' @ camp @ ''|'' @ trm;
          groups1 =
            (if list_ex (\<lambda>g. cKey g = k) groups then groups
             else groups @ [\<lparr>cKey = k, cProduct = prod, cCampaign = camp, cTerm = trm,
                             salesCount = 0, totalRevenue = Fin 0, dates = []\<rparr>]);
          dateOnly = hd (split_on (CHR '' '') (ToString rt (r (orEmpty (colData data)))))
      in map (\<lambda>g. if cKey g = k
                   then g\<lparr>salesCount := salesCount g + 1,
                          totalRevenue := jsAdd (totalRevenue g) (rowRevenue data r),
                          dates := setAdd (dates g) dateOnly\<rparr>
                   else g) groups1)"

definition groupedData :: "runtime \<Rightarrow> int \<Rightarrow> dashboard_data \<Rightarrow> dashboard_state \<Rightarrow> cluster list" where
  "groupedData rt clock data st =
     sortBy (\<lambda>a b. jsSub (Fin (of_nat (salesCount b))) (Fin (of_nat (salesCount a))))
       (foldl (addToGroups rt data) [] (filteredRows rt clock data st))"

text \<open>
  \<^verbatim>\<open>groupedData\<close> of the variant in \<^verbatim>\<open>components/Dashboard.tsx\<close>: other placeholders, no
  trimming, no dates, sorted by revenue.
\<close>

record cluster2 =
  prod :: string
  camp :: string
  trm :: string
  sales :: nat
  revenue :: jsnum

definition key2 :: "cluster2 \<Rightarrow> string" where
  "key2 g = prod g @ ''|'' @ camp g @ ''|'' @ trm g"

text \<open>The campaign placeholder has one letter outside ASCII: two bytes in UTF-8.\<close>

definition organico :: string where
  "organico = ''Org'' @ [CHR 0xC3, CHR 0xA2] @ ''nico''"

definition clusterKey2 :: "runtime \<Rightarrow> dashboard_data \<Rightarrow> row \<Rightarrow> string" where
  "clusterKey2 rt data r =
     ToString rt (orString (r (orEmpty (colProduto data))) ''Sem Produto'') @ ''|''
       @ ToString rt (orString (r (orEmpty (colCampaign data))) organico) @ ''|''
       @ ToString rt (orString (r (orEmpty (colTerm data))) ''N/A'')"

definition addToGroups2 :: "runtime \<Rightarrow> dashboard_data \<Rightarrow> (string \<times> cluster2) list \<Rightarrow> row
    \<Rightarrow> (string \<times> cluster2) list" where
  "addToGroups2 rt data groups r =
     (let p = ToString rt (orString (r (orEmpty (colProduto data))) ''Sem Produto'');
          c = ToString rt (orString (r (orEmpty (colCampaign data))) organico);
          t = ToString rt (orString (r (orEmpty (colTerm data))) ''N/A'');
          k = p @ ''|'' @ c @ ''|'' @ t;
          groups1 =
            (if list_ex (\<lambda>(k', g). k' = k) groups then groups
             else groups @ [(k, \<lparr>prod = p, camp = c, trm = t, sales = 0, revenue = Fin 0\<rparr>)])
      in map (\<lambda>(k', g). if k' = k
                   then (k', g\<lparr>sales := sales g + 1,
                               revenue := jsAdd (revenue g) (rowRevenue data r)\<rparr>)
                   else (k', g)) groups1)"

definition groupedData2 :: "runtime \<Rightarrow> int \<Rightarrow> dashboard_data \<Rightarrow> dashboard_state \<Rightarrow> cluster2 list" where
  "groupedData2 rt clock data st =
     sortBy (\<lambda>a b. jsSub (revenue b) (revenue a))
       (map snd (foldl (addToGroups2 rt data) [] (filteredRows rt clock data st)))"



section \<open>Sums of numbers\<close>

text \<open>
  With exact finite values the addition of numbers is associative and commutative, and 0
  is neutral, so the sum of a list of numbers is defined whatever the order.
\<close>

instantiation jsnum :: comm_monoid_add
begin
definition zero_jsnum :: jsnum where
  "zero_jsnum = Fin 0"
definition plus_jsnum :: "jsnum \<Rightarrow> jsnum \<Rightarrow> jsnum" where
  "plus_jsnum = jsAdd"
instance
proof
  fix a b c :: jsnum
  show "a + b + c = a + (b + c)"
    unfolding plus_jsnum_def by (cases a; cases b; cases c) simp_all
  show "a + b = b + a"
    unfolding plus_jsnum_def by (cases a; cases b) simp_all
  show "0 + a = a"
    unfolding plus_jsnum_def zero_jsnum_def by (cases a) simp_all
qed
end

section \<open>What the specification says, where it is compared with the code\<close>

text \<open>
  The revenue a row contributes, in the words of the specification: the revenue cell
  coerced to a number, a missing or non-numeric cell counting 0.
\<close>

definition revenueCell :: "dashboard_data \<Rightarrow> row \<Rightarrow> cell option" where
  "revenueCell data r = r (orEmpty (colFaturamento data))"

definition revenueContribution :: "dashboard_data \<Rightarrow> row \<Rightarrow> jsnum" where
  "revenueContribution data r =
     (case revenueCell data r of
        None \<Rightarrow> Fin 0
      | Some c \<Rightarrow> (if ToNumber (Some c) = NaN then Fin 0 else ToNumber (Some c)))"

text \<open>
  The schema resolver as the specification words it, in three tiers: the header at the
  hint; else the first header whose lowercase form equals a fragment; else the first
  header whose lowercase form contains one.
\<close>

definition findHeader_spec :: "string list \<Rightarrow> string list \<Rightarrow> nat option \<Rightarrow> string option" where
  "findHeader_spec hs keys indexHint =
     (if indexHint \<noteq> None \<and> the indexHint < length hs then Some (hs ! the indexHint)
      else (case find (\<lambda>h. toLowerCase h \<in> set keys) hs of
              Some h \<Rightarrow> Some h
            | None \<Rightarrow> find (\<lambda>h. list_ex (\<lambda>k. includes_str (toLowerCase h) k) keys) hs))"

text \<open>The rows of a cluster: the rows that have its key.\<close>

definition rowsOf :: "runtime \<Rightarrow> dashboard_data \<Rightarrow> row list \<Rightarrow> string \<Rightarrow> row list" where
  "rowsOf rt data rs k = filter (\<lambda>r. clusterKey rt data r = k) rs"

text \<open>The same for the variant that sorts by revenue.\<close>

definition rowsOf2 :: "runtime \<Rightarrow> dashboard_data \<Rightarrow> row list \<Rightarrow> string \<Rightarrow> row list" where
  "rowsOf2 rt data rs k = filter (\<lambda>r. clusterKey2 rt data r = k) rs"

text \<open>
  The threshold of the presets of N days as the specification words it: the end of the
  current day, 23:59:59.999 in local time, minus N days; a row passes when its date is
  not earlier.
\<close>

definition endOfToday :: "runtime \<Rightarrow> int \<Rightarrow> jsdate" where
  "endOfToday rt clock = setHours rt (DateObj (Some clock)) 23 59 59 999"

definition daysPasses_spec :: "runtime \<Rightarrow> int \<Rightarrow> int \<Rightarrow> jsdate \<Rightarrow> bool" where
  "daysPasses_spec rt clock n rowDate =
     (case (getTime rowDate, getTime (endOfToday rt clock)) of
        (Some t, Some e) \<Rightarrow> e - n * msPerDay \<le> t
      | _ \<Rightarrow> False)"

text \<open>
  A reference moment is valid when it is a time value with a month to spare on both
  sides of the range of time values, which is 100 million days around the epoch.
\<close>

definition validClock :: "int \<Rightarrow> bool" where
  "validClock clock \<longleftrightarrow> \<bar>clock\<bar> + 31 * msPerDay \<le> 8640000000000000"

section \<open>Invariants of the grouping loops\<close>

text \<open>
  What one row does to its group, and what holds of the groups after the rows \<open>rs\<close>: the
  keys are distinct, they are the keys of the rows, and every group counts and sums the
  rows of its key.
\<close>

definition bump :: "runtime \<Rightarrow> dashboard_data \<Rightarrow> row \<Rightarrow> cluster \<Rightarrow> cluster" where
  "bump rt data r g =
     g\<lparr>salesCount := salesCount g + 1,
       totalRevenue := jsAdd (totalRevenue g) (rowRevenue data r),
       dates := setAdd (dates g) (hd (split_on (CHR '' '') (ToString rt (r (orEmpty (colData data))))))\<rparr>"

definition groupsOk :: "runtime \<Rightarrow> dashboard_data \<Rightarrow> row list \<Rightarrow> cluster list \<Rightarrow> bool" where
  "groupsOk rt data rs gs \<longleftrightarrow>
     distinct (map cKey gs) \<and> cKey ` set gs = clusterKey rt data ` set rs \<and>
     (\<forall>g\<in>set gs. salesCount g = length (rowsOf rt data rs (cKey g)) \<and>
                  totalRevenue g = (\<Sum>r\<leftarrow>rowsOf rt data rs (cKey g). rowRevenue data r))"

definition bump2 :: "dashboard_data \<Rightarrow> row \<Rightarrow> cluster2 \<Rightarrow> cluster2" where
  "bump2 data r g = g\<lparr>sales := sales g + 1, revenue := jsAdd (revenue g) (rowRevenue data r)\<rparr>"

definition groupsOk2 :: "runtime \<Rightarrow> dashboard_data \<Rightarrow> row list \<Rightarrow> (string \<times> cluster2) list \<Rightarrow> bool" where
  "groupsOk2 rt data rs gs \<longleftrightarrow>
     distinct (map fst gs) \<and> fst ` set gs = clusterKey2 rt data ` set rs \<and>
     (\<forall>p\<in>set gs. key2 (snd p) = fst p \<and> sales (snd p) = length (rowsOf2 rt data rs (fst p)) \<and>
                  revenue (snd p) = (\<Sum>r\<leftarrow>rowsOf2 rt data rs (fst p). rowRevenue data r))"

section \<open>Example data\<close>

text \<open>
  A runtime to run examples on: the zone of Bras\<^verbatim>\<open>i\<close>lia, three hours behind UTC; whole
  numbers printed in decimal (the examples print no other number); no string but an ISO
  calendar date parses as a date.
\<close>

definition exNumberToString :: "jsnum \<Rightarrow> string" where
  "exNumberToString n =
     (case n of
        NaN \<Rightarrow> ''NaN''
      | PInf \<Rightarrow> ''Infinity''
      | NInf \<Rightarrow> ''-Infinity''
      | Fin q \<Rightarrow> (if q < 0 then ''-'' else []) @ intToString \<bar>truncRat q\<bar>)"

definition exRuntime :: runtime where
  "exRuntime = \<lparr>LocalTZA = - 10800000, NumberToString = exNumberToString,
                DateParseOther = (\<lambda>s. None)\<rparr>"

text \<open>
  The three rows of the specification's examples, and a fourth with a date that is no
  date and no revenue cell.
\<close>

definition exRows :: "row list" where
  "exRows =
     [map_of [(''ID'', Num (Fin 1)), (''Data'', Str ''01/03/2024''), (''Produto'', Str ''A''),
              (''Valor'', Num (Fin 100))],
      map_of [(''ID'', Num (Fin 2)), (''Data'', Str ''15/03/2024''), (''Produto'', Str ''A''),
              (''Valor'', Num (Fin 50))],
      map_of [(''ID'', Num (Fin 3)), (''Data'', Str ''01/03/2024''), (''Produto'', Str ''B''),
              (''Valor'', Str ''30'')],
      map_of [(''ID'', Num (Fin 4)), (''Data'', Str ''a/b/c''), (''Produto'', Str ''B'')]]"

definition exData :: dashboard_data where
  "exData = \<lparr>headers = [''ID'', ''Data'', ''Produto'', ''Valor''], rows = exRows\<rparr>"

text \<open>The state the component starts in, and states reached from it.\<close>

definition exState :: dashboard_state where
  "exState =
     \<lparr>viewMode = central, filters = [], columnSearchTerms = [], searchTerm = [],
      manualInvestment = Fin 0, groupInvestments = [], activeHeaderFilter = None,
      datePreset = P_all, customStartDate = [], customEndDate = []\<rparr>"

definition exCustom :: dashboard_state where
  "exCustom = exState\<lparr>datePreset := P_custom, customStartDate := ''2024-03-01'',
                      customEndDate := ''2024-03-01''\<rparr>"

definition ex7days :: dashboard_state where
  "ex7days = exState\<lparr>datePreset := P_7days\<rparr>"

definition exProductA :: dashboard_state where
  "exProductA = toggleFilter ''Produto'' ''A'' exState"

text \<open>
  Two instants in that zone: ten in the morning of 15 March 2024, and midnight at the
  start of 22 March 2024.
\<close>

definition exClock :: int where
  "exClock = 1710507600000"

definition exMidnight :: int where
  "exMidnight = 1711076400000"

section \<open>The calendar\<close>

text \<open>
  The year function is the one the standard defines: the year of a day is the year that
  starts on or before it and whose successor starts after it.
\<close>

lemma div_lower: "0 < c \<Longrightarrow> c * (x div c) \<le> (x::int)"
  using pos_mod_sign[of c x] mult_div_mod_eq[of c x] by linarith

lemma div_upper: "0 < c \<Longrightarrow> (x::int) < c * (x div c) + c"
  using pos_mod_bound[of c x] mult_div_mod_eq[of c x] by linarith

lemma DayFromYear_bounds:
  "146097 * y - 287811596 \<le> 400 * DayFromYear y"
  "400 * DayFromYear y \<le> 146097 * y - 287810501"
proof -
  define q4 q100 q400 where "q4 = (y - 1969) div 4" and "q100 = (y - 1901) div 100"
    and "q400 = (y - 1601) div 400"
  have l4: "4 * q4 \<le> y - 1969" unfolding q4_def by (rule div_lower) simp
  have u4: "4 * q4 + 4 > y - 1969" unfolding q4_def by (rule div_upper) simp
  have l100: "100 * q100 \<le> y - 1901" unfolding q100_def by (rule div_lower) simp
  have u100: "100 * q100 + 100 > y - 1901" unfolding q100_def by (rule div_upper) simp
  have l400: "400 * q400 \<le> y - 1601" unfolding q400_def by (rule div_lower) simp
  have u400: "400 * q400 + 400 > y - 1601" unfolding q400_def by (rule div_upper) simp
  have eq: "DayFromYear y = 365 * y - 719050 + q4 - q100 + q400"
    by (simp add: DayFromYear_def q4_def q100_def q400_def)
  have u4': "y - 1972 \<le> 4 * q4" using u4 by simp
  have u100': "y - 2000 \<le> 100 * q100" using u100 by simp
  have u400': "y - 2000 \<le> 400 * q400" using u400 by simp
  have eq400: "400 * DayFromYear y = 146000 * y - 287620000 + 400 * q4 - 400 * q100 + 400 * q400"
    unfolding eq by simp
  show "146097 * y - 287811596 \<le> 400 * DayFromYear y"
    unfolding eq400 using u4' l100 u400' by linarith
  show "400 * DayFromYear y \<le> 146097 * y - 287810501"
    unfolding eq400 using l4 u100' l400 by linarith
qed

lemma YearFromDay_correct:
  "DayFromYear (YearFromDay d) \<le> d \<and> d < DayFromYear (YearFromDay d + 1)"
proof -
  define k where "k = (400 * d) div 146097"
  define y0 where "y0 = 1970 + k"
  have k1: "146097 * k \<le> 400 * d" unfolding k_def by (rule div_lower) simp
  have k2: "400 * d < 146097 * k + 146097" unfolding k_def by (rule div_upper) simp
  have "146097 * k + 291688 \<le> 400 * DayFromYear (y0 + 2)"
    using DayFromYear_bounds(1)[of "y0 + 2"] unfolding y0_def by (simp add: algebra_simps)
  then have A: "d < DayFromYear (y0 + 2)"
    using k2 by linarith
  have "400 * DayFromYear (y0 - 1) \<le> 146097 * k - 145508"
    using DayFromYear_bounds(2)[of "y0 - 1"] unfolding y0_def by (simp add: algebra_simps)
  then have B: "DayFromYear (y0 - 1) \<le> d"
    using k1 by linarith
  have Y: "YearFromDay d =
      (if DayFromYear (y0 + 1) \<le> d then y0 + 1 else if DayFromYear y0 \<le> d then y0 else y0 - 1)"
    unfolding YearFromDay_def Let_def k_def y0_def ..
  consider "DayFromYear (y0 + 1) \<le> d"
    | "\<not> DayFromYear (y0 + 1) \<le> d" "DayFromYear y0 \<le> d"
    | "\<not> DayFromYear (y0 + 1) \<le> d" "\<not> DayFromYear y0 \<le> d"
    by blast
  then show ?thesis
  proof cases
    case 1
    have "y0 + 1 + 1 = y0 + 2" by simp
    with 1 A show ?thesis unfolding Y by (simp add: add.commute)
  next
    case 2
    then show ?thesis unfolding Y by simp
  next
    case 3
    have "y0 - 1 + 1 = y0" by simp
    with 3 B show ?thesis unfolding Y by simp
  qed
qed

text \<open>
  Setting the day of the month keeps the year and month of the date and moves its day
  number by the difference; the day of the month depends on the day number only.
\<close>

lemma monthOfYearDay_range: "0 \<le> monthOfYearDay d l \<and> monthOfYearDay d l \<le> 11"
  by (simp add: monthOfYearDay_def)

lemma MakeDay_of_time:
  "MakeDay (YearFromTime t) (MonthFromTime t) dt = Day t - DateFromTime t + dt"
proof -
  have m: "0 \<le> MonthFromTime t" "MonthFromTime t \<le> 11"
    using monthOfYearDay_range[of "DayWithinYear t" "InLeapYear t"] by (simp_all add: MonthFromTime_def)
  then have "MonthFromTime t div 12 = 0" "MonthFromTime t mod 12 = MonthFromTime t"
    by simp_all
  then show ?thesis
    by (simp add: MakeDay_def Let_def DateFromTime_def DayWithinYear_def InLeapYear_def)
qed

lemma DateFromTime_cong: "Day a = Day b \<Longrightarrow> DateFromTime a = DateFromTime b"
  by (simp add: DateFromTime_def DayWithinYear_def MonthFromTime_def InLeapYear_def YearFromTime_def)

lemma Day_end_of_day: "Day (Day t * msPerDay + 86399999) = Day t"
  by (simp add: Day_def msPerDay_def)

lemma end_of_day_bounds:
  "t \<le> Day t * msPerDay + 86399999" "Day t * msPerDay + 86399999 < t + msPerDay"
  unfolding Day_def msPerDay_def by (simp_all add: algebra_simps)

lemma TimeClip_in_range: "\<bar>t\<bar> \<le> 8640000000000000 \<Longrightarrow> TimeClip t = Some t"
  by (simp add: TimeClip_def)

text \<open>The end of the current day, and the date \<open>n\<close> days before the reference moment.\<close>

lemma endOfToday_value:
  assumes "validClock clock"
  shows "endOfToday rt clock
         = DateObj (Some (Day (clock + LocalTZA rt) * msPerDay + 86399999 - LocalTZA rt))"
proof -
  let ?lt = "clock + LocalTZA rt"
  have "clock \<le> Day ?lt * msPerDay + 86399999 - LocalTZA rt"
       "Day ?lt * msPerDay + 86399999 - LocalTZA rt < clock + msPerDay"
    using end_of_day_bounds[of ?lt] by simp_all
  then have "\<bar>Day ?lt * msPerDay + 86399999 - LocalTZA rt\<bar> \<le> 8640000000000000"
    using assms unfolding validClock_def msPerDay_def by simp
  then show ?thesis
    by (simp add: endOfToday_def setHours_def LocalTime_def UTC_def MakeDate_def MakeTime_def
        TimeClip_in_range)
qed

lemma daysAgo_value:
  assumes "validClock clock" and "0 \<le> n" and "n \<le> 31"
  shows "daysAgo rt clock n = DateObj (Some (clock - n * msPerDay))"
proof -
  let ?lt = "clock + LocalTZA rt"
  have now: "setHours rt (DateObj (Some clock)) 23 59 59 999
      = DateObj (Some (Day ?lt * msPerDay + 86399999 - LocalTZA rt))"
    using endOfToday_value[OF assms(1), of rt] by (simp add: endOfToday_def)
  have gd: "getDate rt (DateObj (Some (Day ?lt * msPerDay + 86399999 - LocalTZA rt)))
      = Some (DateFromTime ?lt)"
    using DateFromTime_cong[OF Day_end_of_day[of ?lt]] by (simp add: getDate_def LocalTime_def)
  have md: "MakeDate (MakeDay (YearFromTime ?lt) (MonthFromTime ?lt) (DateFromTime ?lt - n))
                (TimeWithinDay ?lt) = ?lt - n * msPerDay"
    unfolding MakeDay_of_time MakeDate_def TimeWithinDay_def Day_def
    by (simp add: algebra_simps)
  have "\<bar>clock - n * msPerDay\<bar> \<le> 8640000000000000"
  proof -
    have "n * msPerDay \<le> 31 * msPerDay" "0 \<le> n * msPerDay"
      using assms(2,3) by (simp_all add: msPerDay_def)
    then show ?thesis using assms(1) unfolding validClock_def by linarith
  qed
  then have tc: "TimeClip (clock - n * msPerDay) = Some (clock - n * msPerDay)"
    by (rule TimeClip_in_range)
  show ?thesis
    unfolding daysAgo_def Let_def now gd
    by (simp add: setDate_def LocalTime_def UTC_def md tc Let_def)
qed

section \<open>Strings and the examples\<close>

lemma includes_str_sublist: "includes_str s k \<longleftrightarrow> sublist k s"
  by (induction s) (auto simp: sublist_Cons_right)

lemma headerMatches_iff:
  "headerMatches keys h \<longleftrightarrow> (\<exists>k\<in>set keys. sublist (toLowerCase k) (toLowerCase h))"
  by (auto simp: headerMatches_def list_ex_iff includes_str_sublist)

lemma toLowerCase_undefined: "toLowerCase ''undefined'' = ''undefined''"
  by code_simp

text \<open>The example data, run.\<close>

lemma ex_columns:
  "colData exData = Some ''Data'' \<and> colProduto exData = Some ''Produto'' \<and>
   colFaturamento exData = Some ''Valor'' \<and> colCampaign exData = None \<and> colTerm exData = None"
  by code_simp

lemma ex_all_rows: "length (filteredRows exRuntime exClock exData exState) = 4"
  by code_simp


lemma ex_validClock: "validClock exClock"
  by code_simp

section \<open>The KPI reducer\<close>

lemma rowRevenue_contribution: "rowRevenue data r = revenueContribution data r"
  by (auto simp: rowRevenue_def revenueContribution_def revenueCell_def orZero_def truthyNum_def
      split: option.splits)




section \<open>The schema resolver\<close>

text \<open>
  C4, as amended. For every header list and role request, \<open>findHeader\<close> returns the header
  at the hint position when a non-empty header stands there; otherwise the first header,
  in header order, whose lowercase form contains the lowercase form of one of the
  fragments (a header equal to a fragment contains it); otherwise nothing. Equality and
  containment are one test of one pass: an exact match has no priority over an earlier
  header that only contains a fragment.
\<close>

theorem findHeader_first_containing:
  "findHeader hs keys hint =
     (if hint \<noteq> None \<and> the hint < length hs \<and> hs ! the hint \<noteq> [] then Some (hs ! the hint)
      else find (\<lambda>h. \<exists>k\<in>set keys. sublist (toLowerCase k) (toLowerCase h)) hs)"
proof -
  have "headerMatches keys = (\<lambda>h. \<exists>k\<in>set keys. sublist (toLowerCase k) (toLowerCase h))"
    by (rule ext) (simp add: headerMatches_iff)
  then show ?thesis
    by (simp add: findHeader_def split: option.splits)
qed

text \<open>
  The product column of the example data: the hint 7 is beyond the four headers, and
  the third header is the first that contains a fragment.
\<close>

theorem findHeader_first_containing_witness:
  "findHeader (headers exData) [''produto'', ''nome do produto''] (Some 7) = Some ''Produto'' \<and>
   find (\<lambda>h. \<exists>k\<in>set [''produto'', ''nome do produto'']. sublist (toLowerCase k) (toLowerCase h))
     (headers exData) = Some ''Produto''"
proof -
  have a: "findHeader (headers exData) [''produto'', ''nome do produto''] (Some 7) = Some ''Produto''"
    using ex_columns by (simp add: colProduto_def)
  have b: "\<not> (7 < length (headers exData))" by (simp add: exData_def)
  show ?thesis
    using findHeader_first_containing[of "headers exData" "[''produto'', ''nome do produto'']" "Some 7"] a b
    by simp
qed

text \<open>
  The claim as stated fails: with the headers \<^verbatim>\<open>Data da Venda\<close>, \<^verbatim>\<open>Data\<close>, the fragment
  \<^verbatim>\<open>data\<close> and no hint, the three tiers of the specification pick the second header, an
  exact match, and the code picks the first.
\<close>

theorem findHeader_priority_counterexample:
  "findHeader [''Data da Venda'', ''Data''] [''data''] None = Some ''Data da Venda'' \<and>
   findHeader_spec [''Data da Venda'', ''Data''] [''data''] None = Some ''Data''"
  by code_simp

section \<open>The filter state\<close>

text \<open>
  C7, as amended. \<open>clearAllFilters\<close> empties the selected values, the search string and
  the per-column search terms, sets the date preset to \<^verbatim>\<open>all\<close> and closes the open header
  filter; it leaves the custom start and end dates as they are, as well as the manual
  investment, every per-cluster investment and the view.
\<close>

theorem clearAllFilters_effect:
  "filters (clearAllFilters st) = [] \<and> searchTerm (clearAllFilters st) = [] \<and>
   columnSearchTerms (clearAllFilters st) = [] \<and> datePreset (clearAllFilters st) = P_all \<and>
   activeHeaderFilter (clearAllFilters st) = None \<and>
   customStartDate (clearAllFilters st) = customStartDate st \<and>
   customEndDate (clearAllFilters st) = customEndDate st \<and>
   manualInvestment (clearAllFilters st) = manualInvestment st \<and>
   groupInvestments (clearAllFilters st) = groupInvestments st \<and>
   viewMode (clearAllFilters st) = viewMode st"
  by (simp add: clearAllFilters_def)

theorem clearAllFilters_effect_witness:
  "datePreset (clearAllFilters exCustom) = P_all \<and>
   customStartDate (clearAllFilters exCustom) = ''2024-03-01'' \<and>
   manualInvestment (clearAllFilters exCustom) = Fin 0"
  using clearAllFilters_effect[of exCustom] by (simp add: exCustom_def exState_def)

text \<open>The claim as stated fails: the custom bounds survive the reset.\<close>

theorem clearAllFilters_bounds_counterexample:
  "\<not> (customStartDate (clearAllFilters exCustom) = [] \<and>
      customEndDate (clearAllFilters exCustom) = [])"
  by (simp add: clearAllFilters_def exCustom_def exState_def)









section \<open>The filtered rows\<close>

lemma rowsWithIndex_eq:
  "rowsWithIndex data = map (\<lambda>i. withId (rows data ! i) i) [0..<length (rows data)]"
  unfolding rowsWithIndex_def
  by (rule nth_equalityI) (simp_all add: nth_enumerate_eq)

lemma filter_map_upt:
  "\<exists>is. sorted_wrt (<) is \<and> set is \<subseteq> {..<n} \<and> filter P (map f [0..<n]) = map f is"
proof -
  let ?is = "filter (P \<circ> f) [0..<n]"
  have "sorted_wrt (<) ?is" by (rule sorted_wrt_filter) (simp add: sorted_wrt_upt)
  moreover have "set ?is \<subseteq> {..<n}" by auto
  moreover have "filter P (map f [0..<n]) = map f ?is" by (simp add: filter_map)
  ultimately show ?thesis by blast
qed

text \<open>
  C9. For every dataset and filter state, the filtered rows are a subsequence of the
  indexed rows, in their order: they are the rows at a strictly increasing list of
  positions of \<^verbatim>\<open>data.rows\<close>, each with \<^verbatim>\<open>_id\<close> set to its position, so that no \<^verbatim>\<open>_id\<close> occurs
  twice or is given anew.
\<close>

theorem filteredRows_subseq_ids:
  "subseq (filteredRows rt clock data st) (rowsWithIndex data) \<and>
   (\<exists>is. sorted_wrt (<) is \<and> set is \<subseteq> {..<length (rows data)} \<and>
         filteredRows rt clock data st
           = map (\<lambda>i. (rows data ! i)(''_id'' \<mapsto> Num (Fin (of_nat i)))) is)"
proof
  show "subseq (filteredRows rt clock data st) (rowsWithIndex data)"
    by (simp add: filteredRows_def)
  show "\<exists>is. sorted_wrt (<) is \<and> set is \<subseteq> {..<length (rows data)} \<and>
         filteredRows rt clock data st
           = map (\<lambda>i. (rows data ! i)(''_id'' \<mapsto> Num (Fin (of_nat i)))) is"
    using filter_map_upt[of "length (rows data)" "includeRow rt clock data st"
        "\<lambda>i. withId (rows data ! i) i"]
    by (simp add: filteredRows_def rowsWithIndex_eq withId_def)
qed

lemma ex_productA_ids:
  "map (\<lambda>r. r ''_id'') (filteredRows exRuntime exClock exData exProductA)
     = [Some (Num (Fin 0)), Some (Num (Fin 1))]"
  by code_simp

theorem filteredRows_subseq_ids_witness:
  "subseq (filteredRows exRuntime exClock exData exProductA) (rowsWithIndex exData) \<and>
   map (\<lambda>r. r ''_id'') (filteredRows exRuntime exClock exData exProductA)
     = [Some (Num (Fin 0)), Some (Num (Fin 1))]"
  using filteredRows_subseq_ids[of exRuntime exClock exData exProductA] ex_productA_ids
  by blast

section \<open>The free-text predicate\<close>

text \<open>
  C10. An absent cell is turned into the string \<^verbatim>\<open>undefined\<close> before the scan: for every
  row that has no value for some header, the free-text predicate passes the row whenever
  the lowercase form of the search string is a substring of \<^verbatim>\<open>undefined\<close>.
\<close>

theorem search_undefined:
  assumes "h \<in> set hs" and "r h = None" and "includes_str ''undefined'' (toLowerCase s)"
  shows "matchesSearch rt hs s r"
proof -
  have "includes_str (toLowerCase (ToString rt (r h))) (toLowerCase s)"
    by (simp only: assms(2) ToString.simps toLowerCase_undefined assms(3))
  with assms(1) have "list_ex (\<lambda>h. includes_str (toLowerCase (ToString rt (r h))) (toLowerCase s)) hs"
    unfolding list_ex_iff by blast
  then show ?thesis unfolding matchesSearch_def by blast
qed

lemma ex_missing_cell:
  "''Valor'' \<in> set (headers exData) \<and> (exRows ! 3) ''Valor'' = None \<and>
   includes_str ''undefined'' (toLowerCase ''Undef'')"
  by code_simp

text \<open>The fourth example row has no revenue cell, and a search for \<^verbatim>\<open>Undef\<close> finds it.\<close>

theorem search_undefined_witness:
  "''Valor'' \<in> set (headers exData) \<and> (exRows ! 3) ''Valor'' = None \<and>
   includes_str ''undefined'' (toLowerCase ''Undef'') \<and>
   matchesSearch exRuntime (headers exData) ''Undef'' (exRows ! 3)"
proof -
  have a: "''Valor'' \<in> set (headers exData)" and b: "(exRows ! 3) ''Valor'' = None"
    and c: "includes_str ''undefined'' (toLowerCase ''Undef'')"
    using ex_missing_cell by simp_all
  have "matchesSearch exRuntime (headers exData) ''Undef'' (exRows ! 3)"
    by (rule search_undefined[where h = "''Valor''" and r = "exRows ! 3", OF a b c])
  with a b c show ?thesis by (intro conjI)
qed

section \<open>The cluster reducer\<close>

text \<open>Sorting permutes.\<close>

lemma mset_insertBy: "mset (insertBy cmp x ys) = add_mset x (mset ys)"
  by (induction ys) simp_all

lemma mset_sortBy: "mset (sortBy cmp xs) = mset xs"
  unfolding sortBy_def by (induction xs) (simp_all add: mset_insertBy)

text \<open>The loop body, as a case distinction on whether the key is there already.\<close>

lemma addToGroups_alt:
  "addToGroups rt data groups r =
     (let k = clusterKey rt data r
      in if k \<in> cKey ` set groups
         then map (\<lambda>g. if cKey g = k then bump rt data r g else g) groups
         else groups @ [bump rt data r \<lparr>cKey = k, cProduct = clusterPart rt (colProduto data) r,
                 cCampaign = clusterPart rt (colCampaign data) r, cTerm = clusterPart rt (colTerm data) r,
                 salesCount = 0, totalRevenue = Fin 0, dates = []\<rparr>])"
proof -
  have *: "map (\<lambda>g. if cKey g = k then f g else g) groups = groups" if "k \<notin> cKey ` set groups" for k f
    using that by (induction groups) auto
  have ex: "list_ex (\<lambda>g. cKey g = k) groups \<longleftrightarrow> k \<in> cKey ` set groups" for k
    by (auto simp: list_ex_iff)
  show ?thesis
    unfolding addToGroups_def Let_def ex clusterKey_def[symmetric] bump_def[symmetric]
    by (simp add: * bump_def)
qed

lemma bump_fields:
  "cKey (bump rt data r g) = cKey g" "salesCount (bump rt data r g) = salesCount g + 1"
  "totalRevenue (bump rt data r g) = totalRevenue g + rowRevenue data r"
  by (simp_all add: bump_def plus_jsnum_def)

lemma groupsOk_step:
  assumes "groupsOk rt data rs gs"
  shows "groupsOk rt data (rs @ [r]) (addToGroups rt data gs r)"
proof -
  define k where "k = clusterKey rt data r"
  have d: "distinct (map cKey gs)" and ks: "cKey ` set gs = clusterKey rt data ` set rs"
    and inv: "\<And>g. g \<in> set gs \<Longrightarrow> salesCount g = length (rowsOf rt data rs (cKey g)) \<and>
                  totalRevenue g = (\<Sum>r\<leftarrow>rowsOf rt data rs (cKey g). rowRevenue data r)"
    using assms unfolding groupsOk_def by blast+
  have app: "rowsOf rt data (rs @ [r]) k' =
      (if k' = k then rowsOf rt data rs k' @ [r] else rowsOf rt data rs k')" for k'
    by (simp add: rowsOf_def k_def)
  show ?thesis
  proof (cases "k \<in> cKey ` set gs")
    case True
    let ?gs' = "map (\<lambda>g. if cKey g = k then bump rt data r g else g) gs"
    have eq: "addToGroups rt data gs r = ?gs'"
      using True by (simp add: addToGroups_alt k_def Let_def)
    have k1: "map cKey ?gs' = map cKey gs"
      by (induction gs) (simp_all add: bump_fields)
    show ?thesis
      unfolding groupsOk_def eq
    proof (intro conjI ballI)
      show "distinct (map cKey ?gs')" unfolding k1 by (rule d)
      have "cKey ` set ?gs' = set (map cKey ?gs')" by (simp only: set_map)
      also have "\<dots> = cKey ` set gs" unfolding k1 by simp
      also have "\<dots> = clusterKey rt data ` set (rs @ [r])"
        using True ks k_def by auto
      finally show "cKey ` set ?gs' = clusterKey rt data ` set (rs @ [r])" .
    next
      fix g' assume "g' \<in> set ?gs'"
      then obtain g where g: "g \<in> set gs" "g' = (if cKey g = k then bump rt data r g else g)"
        by auto
      show "salesCount g' = length (rowsOf rt data (rs @ [r]) (cKey g'))"
        using inv[OF g(1)] g(2) by (simp add: bump_fields app)
      show "totalRevenue g' = (\<Sum>r\<leftarrow>rowsOf rt data (rs @ [r]) (cKey g'). rowRevenue data r)"
        using inv[OF g(1)] g(2) by (simp add: bump_fields app)
    qed
  next
    case False
    define fresh where "fresh = bump rt data r \<lparr>cKey = k, cProduct = clusterPart rt (colProduto data) r,
                 cCampaign = clusterPart rt (colCampaign data) r, cTerm = clusterPart rt (colTerm data) r,
                 salesCount = 0, totalRevenue = Fin 0, dates = []\<rparr>"
    have eq: "addToGroups rt data gs r = gs @ [fresh]"
      using False by (simp add: addToGroups_alt k_def[symmetric] Let_def fresh_def)
    have fr: "cKey fresh = k" "salesCount fresh = 1" "totalRevenue fresh = rowRevenue data r"
      by (simp_all add: fresh_def bump_fields zero_jsnum_def[symmetric])
    have "k \<notin> clusterKey rt data ` set rs"
      using False ks by simp
    then have none: "rowsOf rt data rs k = []"
      unfolding rowsOf_def filter_empty_conv by (metis imageI)
    show ?thesis
      unfolding groupsOk_def eq
    proof (intro conjI ballI)
      show "distinct (map cKey (gs @ [fresh]))"
        using d False by (simp add: fr)
      show "cKey ` set (gs @ [fresh]) = clusterKey rt data ` set (rs @ [r])"
        using ks by (simp add: fr k_def)
    next
      fix g' assume "g' \<in> set (gs @ [fresh])"
      then consider "g' \<in> set gs" | "g' = fresh" by auto
      then have "salesCount g' = length (rowsOf rt data (rs @ [r]) (cKey g')) \<and>
          totalRevenue g' = (\<Sum>r\<leftarrow>rowsOf rt data (rs @ [r]) (cKey g'). rowRevenue data r)"
      proof cases
        case 1
        then have "cKey g' \<noteq> k" using False by auto
        then show ?thesis using inv[OF 1] by (simp add: app)
      next
        case 2
        then show ?thesis by (simp add: fr app none)
      qed
      then show "salesCount g' = length (rowsOf rt data (rs @ [r]) (cKey g'))"
        and "totalRevenue g' = (\<Sum>r\<leftarrow>rowsOf rt data (rs @ [r]) (cKey g'). rowRevenue data r)"
        by blast+
    qed
  qed
qed

lemma groupsOk_foldl: "groupsOk rt data rs (foldl (addToGroups rt data) [] rs)"
proof (induction rs rule: rev_induct)
  case Nil
  then show ?case by (simp add: groupsOk_def)
next
  case (snoc r rs)
  then show ?case by (simp add: groupsOk_step)
qed


lemma map_bump_id:
  "k \<notin> cKey ` set gs \<Longrightarrow> map (\<lambda>g. if cKey g = k then f g else g) gs = gs"
  by (induction gs) auto

lemma sum_bump:
  assumes "distinct (map cKey gs)" and "k \<in> cKey ` set gs"
  shows "sum_list (map salesCount (map (\<lambda>g. if cKey g = k then bump rt data r g else g) gs))
         = sum_list (map salesCount gs) + 1"
  using assms
proof (induction gs)
  case Nil
  then show ?case by simp
next
  case (Cons g gs)
  show ?case
  proof (cases "cKey g = k")
    case True
    with Cons.prems have "k \<notin> cKey ` set gs" by auto
    then show ?thesis using True by (simp add: map_bump_id bump_fields)
  next
    case False
    with Cons.prems have "k \<in> cKey ` set gs" and "distinct (map cKey gs)" by auto
    then show ?thesis using False Cons.IH by simp
  qed
qed

lemma sum_addToGroups:
  assumes "distinct (map cKey gs)"
  shows "sum_list (map salesCount (addToGroups rt data gs r)) = sum_list (map salesCount gs) + 1"
proof (cases "clusterKey rt data r \<in> cKey ` set gs")
  case True
  then show ?thesis
    using sum_bump[OF assms True] by (simp add: addToGroups_alt Let_def)
next
  case False
  then show ?thesis by (simp add: addToGroups_alt Let_def bump_fields)
qed

lemma sum_foldl_groups:
  "sum_list (map salesCount (foldl (addToGroups rt data) [] rs)) = length rs"
proof (induction rs rule: rev_induct)
  case Nil
  then show ?case by simp
next
  case (snoc r rs)
  have "distinct (map cKey (foldl (addToGroups rt data) [] rs))"
    using groupsOk_foldl[of rt data rs] unfolding groupsOk_def by blast
  then show ?case using snoc by (simp add: sum_addToGroups)
qed

lemma groupedData_mset:
  "mset (groupedData rt clock data st)
     = mset (foldl (addToGroups rt data) [] (filteredRows rt clock data st))"
  by (simp add: groupedData_def mset_sortBy)

text \<open>
  The variant sorted by sale count: the keys of the clusters are distinct, every filtered
  row has exactly one cluster with its key, every cluster counts and sums exactly the
  rows of its key, and the counts add up to the number of filtered rows.
\<close>

lemma clusters_by_sales:
  "distinct (map cKey (groupedData rt clock data st)) \<and>
   (\<forall>r\<in>set (filteredRows rt clock data st).
      \<exists>!g. g \<in> set (groupedData rt clock data st) \<and> cKey g = clusterKey rt data r) \<and>
   (\<forall>g\<in>set (groupedData rt clock data st).
      salesCount g = length (rowsOf rt data (filteredRows rt clock data st) (cKey g)) \<and>
      totalRevenue g = (\<Sum>r\<leftarrow>rowsOf rt data (filteredRows rt clock data st) (cKey g).
                          revenueContribution data r)) \<and>
   sum_list (map salesCount (groupedData rt clock data st)) = length (filteredRows rt clock data st)"
proof -
  define F where "F = filteredRows rt clock data st"
  define G0 where "G0 = foldl (addToGroups rt data) [] F"
  define G where "G = groupedData rt clock data st"
  have ms: "mset G = mset G0"
    unfolding G_def G0_def F_def by (rule groupedData_mset)
  have st: "set G = set G0" using ms by (rule mset_eq_setD)
  have ok: "groupsOk rt data F G0" unfolding G0_def by (rule groupsOk_foldl)
  have "mset (map cKey G) = mset (map cKey G0)" using ms by (metis mset_map)
  then have d: "distinct (map cKey G)"
    using ok unfolding groupsOk_def by (metis mset_eq_imp_distinct_iff)
  have rev: "(\<lambda>r. rowRevenue data r) = revenueContribution data"
    by (rule ext) (rule rowRevenue_contribution)
  have ex1: "\<exists>!g. g \<in> set G \<and> cKey g = clusterKey rt data r" if "r \<in> set F" for r
  proof -
    have "clusterKey rt data r \<in> cKey ` set G"
      using ok that unfolding groupsOk_def st by blast
    then obtain g where g: "g \<in> set G" "cKey g = clusterKey rt data r" by auto
    have "inj_on cKey (set G)" using d by (simp add: distinct_map)
    then show ?thesis using g by (metis inj_onD)
  qed
  have per: "salesCount g = length (rowsOf rt data F (cKey g)) \<and>
      totalRevenue g = (\<Sum>r\<leftarrow>rowsOf rt data F (cKey g). revenueContribution data r)"
    if "g \<in> set G" for g
    using ok that unfolding groupsOk_def st rev by blast
  have "sum_list (map salesCount G) = sum_mset (image_mset salesCount (mset G))"
    by (metis mset_map sum_mset_sum_list)
  also have "\<dots> = sum_list (map salesCount G0)"
    unfolding ms by (metis mset_map sum_mset_sum_list)
  also have "\<dots> = length F" unfolding G0_def by (rule sum_foldl_groups)
  finally have total: "sum_list (map salesCount G) = length F" .
  show ?thesis
    unfolding G_def[symmetric] F_def[symmetric]
    using d ex1 per total by blast
qed

text \<open>The same for the variant sorted by revenue.\<close>

lemma bump2_fields:
  "key2 (bump2 data r g) = key2 g" "sales (bump2 data r g) = sales g + 1"
  "revenue (bump2 data r g) = revenue g + rowRevenue data r"
  by (simp_all add: bump2_def plus_jsnum_def key2_def)

lemma map_bump2_id:
  "k \<notin> fst ` set gs \<Longrightarrow> map (\<lambda>p. if fst p = k then f p else p) gs = gs"
  by (induction gs) auto

lemma addToGroups2_alt:
  "addToGroups2 rt data groups r =
     (let k = clusterKey2 rt data r
      in if k \<in> fst ` set groups
         then map (\<lambda>p. if fst p = k then (fst p, bump2 data r (snd p)) else p) groups
         else groups @ [(k, bump2 data r
                 \<lparr>prod = ToString rt (orString (r (orEmpty (colProduto data))) ''Sem Produto''),
                  camp = ToString rt (orString (r (orEmpty (colCampaign data))) organico),
                  trm = ToString rt (orString (r (orEmpty (colTerm data))) ''N/A''),
                  sales = 0, revenue = Fin 0\<rparr>)])"
proof -
  have ex: "list_ex (\<lambda>(k', g). k' = k) groups \<longleftrightarrow> k \<in> fst ` set groups" for k
    by (force simp: list_ex_iff)
  have sp: "(\<lambda>(k', g). if k' = k then (k', f g) else (k', g)) = (\<lambda>p. if fst p = k then (fst p, f (snd p)) else p)"
    for k and f :: "cluster2 \<Rightarrow> cluster2"
    by (rule ext) (simp add: case_prod_beta)
  show ?thesis
    unfolding addToGroups2_def Let_def ex clusterKey2_def[symmetric] bump2_def[symmetric] sp
    by (simp add: map_bump2_id bump2_def)
qed

lemma groupsOk2_step:
  assumes "groupsOk2 rt data rs gs"
  shows "groupsOk2 rt data (rs @ [r]) (addToGroups2 rt data gs r)"
proof -
  define k where "k = clusterKey2 rt data r"
  have d: "distinct (map fst gs)" and ks: "fst ` set gs = clusterKey2 rt data ` set rs"
    and inv: "\<And>p. p \<in> set gs \<Longrightarrow> key2 (snd p) = fst p \<and>
                  sales (snd p) = length (rowsOf2 rt data rs (fst p)) \<and>
                  revenue (snd p) = (\<Sum>r\<leftarrow>rowsOf2 rt data rs (fst p). rowRevenue data r)"
    using assms unfolding groupsOk2_def by blast+
  have app: "rowsOf2 rt data (rs @ [r]) k' =
      (if k' = k then rowsOf2 rt data rs k' @ [r] else rowsOf2 rt data rs k')" for k'
    by (simp add: rowsOf2_def k_def)
  show ?thesis
  proof (cases "k \<in> fst ` set gs")
    case True
    let ?gs' = "map (\<lambda>p. if fst p = k then (fst p, bump2 data r (snd p)) else p) gs"
    have eq: "addToGroups2 rt data gs r = ?gs'"
      using True by (simp add: addToGroups2_alt k_def Let_def)
    have k1: "map fst ?gs' = map fst gs"
      by (induction gs) simp_all
    show ?thesis
      unfolding groupsOk2_def eq
    proof (intro conjI ballI)
      show "distinct (map fst ?gs')" unfolding k1 by (rule d)
      have "fst ` set ?gs' = set (map fst ?gs')" by (simp only: set_map)
      also have "\<dots> = fst ` set gs" unfolding k1 by simp
      also have "\<dots> = clusterKey2 rt data ` set (rs @ [r])"
        using True ks k_def by auto
      finally show "fst ` set ?gs' = clusterKey2 rt data ` set (rs @ [r])" .
    next
      fix p' assume "p' \<in> set ?gs'"
      then have "p' \<in> (\<lambda>p. if fst p = k then (fst p, bump2 data r (snd p)) else p) ` set gs"
        by (simp only: set_map)
      then obtain p where p: "p \<in> set gs" "p' = (if fst p = k then (fst p, bump2 data r (snd p)) else p)"
        by blast
      show "key2 (snd p') = fst p'"
        using inv[OF p(1)] p(2) by (simp add: bump2_fields)
      show "sales (snd p') = length (rowsOf2 rt data (rs @ [r]) (fst p'))"
        using inv[OF p(1)] p(2) by (simp add: bump2_fields app)
      show "revenue (snd p') = (\<Sum>r\<leftarrow>rowsOf2 rt data (rs @ [r]) (fst p'). rowRevenue data r)"
        using inv[OF p(1)] p(2) by (simp add: bump2_fields app)
    qed
  next
    case False
    define fresh where "fresh = bump2 data r
                 \<lparr>prod = ToString rt (orString (r (orEmpty (colProduto data))) ''Sem Produto''),
                  camp = ToString rt (orString (r (orEmpty (colCampaign data))) organico),
                  trm = ToString rt (orString (r (orEmpty (colTerm data))) ''N/A''),
                  sales = 0, revenue = Fin 0\<rparr>"
    have eq: "addToGroups2 rt data gs r = gs @ [(k, fresh)]"
      using False by (simp add: addToGroups2_alt k_def[symmetric] Let_def fresh_def)
    have fr: "key2 fresh = k" "sales fresh = 1" "revenue fresh = rowRevenue data r"
      by (simp_all add: fresh_def bump2_fields zero_jsnum_def[symmetric])
         (simp add: key2_def k_def clusterKey2_def)
    have "k \<notin> clusterKey2 rt data ` set rs"
      using False ks by simp
    then have none: "rowsOf2 rt data rs k = []"
      unfolding rowsOf2_def filter_empty_conv by (metis imageI)
    show ?thesis
      unfolding groupsOk2_def eq
    proof (intro conjI ballI)
      show "distinct (map fst (gs @ [(k, fresh)]))"
        using d False by simp
      show "fst ` set (gs @ [(k, fresh)]) = clusterKey2 rt data ` set (rs @ [r])"
        using ks by (simp add: k_def)
    next
      fix p' assume "p' \<in> set (gs @ [(k, fresh)])"
      then consider "p' \<in> set gs" | "p' = (k, fresh)" by auto
      then have "key2 (snd p') = fst p' \<and> sales (snd p') = length (rowsOf2 rt data (rs @ [r]) (fst p')) \<and>
          revenue (snd p') = (\<Sum>r\<leftarrow>rowsOf2 rt data (rs @ [r]) (fst p'). rowRevenue data r)"
      proof cases
        case 1
        then have "fst p' \<noteq> k" using False by auto
        then show ?thesis using inv[OF 1] by (simp add: app)
      next
        case 2
        then show ?thesis by (simp add: fr app none)
      qed
      then show "key2 (snd p') = fst p'"
        and "sales (snd p') = length (rowsOf2 rt data (rs @ [r]) (fst p'))"
        and "revenue (snd p') = (\<Sum>r\<leftarrow>rowsOf2 rt data (rs @ [r]) (fst p'). rowRevenue data r)"
        by blast+
    qed
  qed
qed

lemma groupsOk2_foldl: "groupsOk2 rt data rs (foldl (addToGroups2 rt data) [] rs)"
proof (induction rs rule: rev_induct)
  case Nil
  then show ?case by (simp add: groupsOk2_def)
next
  case (snoc r rs)
  then show ?case by (simp add: groupsOk2_step)
qed

lemma sum_bump2:
  assumes "distinct (map fst gs)" and "k \<in> fst ` set gs"
  shows "sum_list (map (\<lambda>p. sales (snd p)) (map (\<lambda>p. if fst p = k then (fst p, bump2 data r (snd p)) else p) gs))
         = sum_list (map (\<lambda>p. sales (snd p)) gs) + 1"
  using assms
proof (induction gs)
  case Nil
  then show ?case by simp
next
  case (Cons g gs)
  show ?case
  proof (cases "fst g = k")
    case True
    with Cons.prems have "k \<notin> fst ` set gs" by auto
    then show ?thesis using True by (simp add: map_bump2_id bump2_fields)
  next
    case False
    with Cons.prems have "k \<in> fst ` set gs" and "distinct (map fst gs)" by auto
    then show ?thesis using False Cons.IH by simp
  qed
qed

lemma sum_addToGroups2:
  assumes "distinct (map fst gs)"
  shows "sum_list (map (\<lambda>p. sales (snd p)) (addToGroups2 rt data gs r)) = sum_list (map (\<lambda>p. sales (snd p)) gs) + 1"
proof (cases "clusterKey2 rt data r \<in> fst ` set gs")
  case True
  then show ?thesis
    using sum_bump2[OF assms True] by (simp add: addToGroups2_alt Let_def)
next
  case False
  then show ?thesis by (simp add: addToGroups2_alt Let_def bump2_fields)
qed

lemma sum_foldl_groups2:
  "sum_list (map (\<lambda>p. sales (snd p)) (foldl (addToGroups2 rt data) [] rs)) = length rs"
proof (induction rs rule: rev_induct)
  case Nil
  then show ?case by simp
next
  case (snoc r rs)
  have "distinct (map fst (foldl (addToGroups2 rt data) [] rs))"
    using groupsOk2_foldl[of rt data rs] unfolding groupsOk2_def by blast
  then show ?case using snoc by (simp add: sum_addToGroups2)
qed

lemma clusters_by_revenue:
  "distinct (map key2 (groupedData2 rt clock data st)) \<and>
   (\<forall>r\<in>set (filteredRows rt clock data st).
      \<exists>!g. g \<in> set (groupedData2 rt clock data st) \<and> key2 g = clusterKey2 rt data r) \<and>
   (\<forall>g\<in>set (groupedData2 rt clock data st).
      sales g = length (rowsOf2 rt data (filteredRows rt clock data st) (key2 g)) \<and>
      revenue g = (\<Sum>r\<leftarrow>rowsOf2 rt data (filteredRows rt clock data st) (key2 g).
                          revenueContribution data r)) \<and>
   sum_list (map sales (groupedData2 rt clock data st)) = length (filteredRows rt clock data st)"
proof -
  define F where "F = filteredRows rt clock data st"
  define P where "P = foldl (addToGroups2 rt data) [] F"
  define G0 where "G0 = map snd P"
  define G where "G = groupedData2 rt clock data st"
  have ms: "mset G = mset G0"
    unfolding G_def G0_def P_def F_def by (simp add: groupedData2_def mset_sortBy)
  have st: "set G = set G0" using ms by (rule mset_eq_setD)
  have ok: "groupsOk2 rt data F P" unfolding P_def by (rule groupsOk2_foldl)
  have kf: "key2 (snd p) = fst p" if "p \<in> set P" for p
    using ok that unfolding groupsOk2_def by blast
  have keys0: "map key2 G0 = map fst P"
    unfolding G0_def using kf by simp
  have "mset (map key2 G) = mset (map key2 G0)" using ms by (metis mset_map)
  then have d: "distinct (map key2 G)"
    using ok unfolding groupsOk2_def keys0[symmetric] by (metis mset_eq_imp_distinct_iff)
  have rev: "(\<lambda>r. rowRevenue data r) = revenueContribution data"
    by (rule ext) (rule rowRevenue_contribution)
  have keyset: "key2 ` set G = clusterKey2 rt data ` set F"
  proof -
    have "key2 ` set G = set (map key2 G0)" unfolding st by simp
    also have "\<dots> = fst ` set P" unfolding keys0 by simp
    also have "\<dots> = clusterKey2 rt data ` set F" using ok unfolding groupsOk2_def by blast
    finally show ?thesis .
  qed
  have ex1: "\<exists>!g. g \<in> set G \<and> key2 g = clusterKey2 rt data r" if "r \<in> set F" for r
  proof -
    have "clusterKey2 rt data r \<in> key2 ` set G"
      using that unfolding keyset by blast
    then obtain g where g: "g \<in> set G" "key2 g = clusterKey2 rt data r" by auto
    have "inj_on key2 (set G)" using d by (simp add: distinct_map)
    then show ?thesis using g by (metis inj_onD)
  qed
  have per: "sales g = length (rowsOf2 rt data F (key2 g)) \<and>
      revenue g = (\<Sum>r\<leftarrow>rowsOf2 rt data F (key2 g). revenueContribution data r)"
    if "g \<in> set G" for g
  proof -
    from that obtain p where p: "p \<in> set P" "g = snd p"
      unfolding st G0_def by auto
    show ?thesis
      using ok p kf[OF p(1)] unfolding groupsOk2_def rev by auto
  qed
  have "sum_list (map sales G) = sum_mset (image_mset sales (mset G))"
    by (metis mset_map sum_mset_sum_list)
  also have "\<dots> = sum_list (map sales G0)"
    unfolding ms by (metis mset_map sum_mset_sum_list)
  also have "\<dots> = sum_list (map (\<lambda>p. sales (snd p)) P)" unfolding G0_def by (simp add: o_def)
  also have "\<dots> = length F" unfolding P_def by (rule sum_foldl_groups2)
  finally have total: "sum_list (map sales G) = length F" .
  show ?thesis
    unfolding G_def[symmetric] F_def[symmetric]
    using d ex1 per total by blast
qed

text \<open>
  C5. For every filtered row set, in both variants of \<open>groupedData\<close>, the grouping by the
  key of product, campaign and term partitions the filtered rows: the clusters have
  distinct keys, each filtered row belongs to exactly one cluster (the one with its key),
  the sale count and the revenue of a cluster are the number and the revenue sum of
  exactly the rows with its key, and the sale counts of all clusters add up to the number
  of filtered rows.
\<close>

theorem clusters_partition:
  "(distinct (map cKey (groupedData rt clock data st)) \<and>
    (\<forall>r\<in>set (filteredRows rt clock data st).
       \<exists>!g. g \<in> set (groupedData rt clock data st) \<and> cKey g = clusterKey rt data r) \<and>
    (\<forall>g\<in>set (groupedData rt clock data st).
       salesCount g = length (rowsOf rt data (filteredRows rt clock data st) (cKey g)) \<and>
       totalRevenue g = (\<Sum>r\<leftarrow>rowsOf rt data (filteredRows rt clock data st) (cKey g).
                           revenueContribution data r)) \<and>
    sum_list (map salesCount (groupedData rt clock data st))
      = length (filteredRows rt clock data st)) \<and>
   (distinct (map key2 (groupedData2 rt clock data st)) \<and>
    (\<forall>r\<in>set (filteredRows rt clock data st).
       \<exists>!g. g \<in> set (groupedData2 rt clock data st) \<and> key2 g = clusterKey2 rt data r) \<and>
    (\<forall>g\<in>set (groupedData2 rt clock data st).
       sales g = length (rowsOf2 rt data (filteredRows rt clock data st) (key2 g)) \<and>
       revenue g = (\<Sum>r\<leftarrow>rowsOf2 rt data (filteredRows rt clock data st) (key2 g).
                      revenueContribution data r)) \<and>
    sum_list (map sales (groupedData2 rt clock data st))
      = length (filteredRows rt clock data st))"
  using clusters_by_sales[of rt clock data st] clusters_by_revenue[of rt clock data st]
  by (rule conjI)

lemma ex_clusters:
  "map (\<lambda>g. (cKey g, salesCount g, totalRevenue g)) (groupedData exRuntime exClock exData exState)
     = [(''A|N/A|N/A'', 2, Fin 150), (''B|N/A|N/A'', 2, Fin 30)]"
  by code_simp

text \<open>
  The four example rows fall into two clusters of two rows each, by product; the counts
  add up to four in both variants.
\<close>

theorem clusters_partition_witness:
  "length (filteredRows exRuntime exClock exData exState) = 4 \<and>
   map (\<lambda>g. (cKey g, salesCount g, totalRevenue g)) (groupedData exRuntime exClock exData exState)
     = [(''A|N/A|N/A'', 2, Fin 150), (''B|N/A|N/A'', 2, Fin 30)] \<and>
   sum_list (map salesCount (groupedData exRuntime exClock exData exState)) = 4 \<and>
   sum_list (map sales (groupedData2 exRuntime exClock exData exState)) = 4"
proof -
  note k = clusters_partition[of exRuntime exClock exData exState]
  have a: "sum_list (map salesCount (groupedData exRuntime exClock exData exState))
      = length (filteredRows exRuntime exClock exData exState)"
    using k by blast
  have b: "sum_list (map sales (groupedData2 exRuntime exClock exData exState))
      = length (filteredRows exRuntime exClock exData exState)"
    using k by blast
  show ?thesis using a b ex_all_rows ex_clusters by simp
qed

section \<open>The date predicate\<close>

text \<open>
  A cell that \<open>parseBrazilianDate\<close> maps to \<^verbatim>\<open>null\<close> excludes its row under every preset but
  \<^verbatim>\<open>all\<close>; so does a cell that is missing, a number or the empty string.
\<close>

lemma unparsed_excluded:
  assumes "c \<noteq> []" and "datePreset st \<noteq> P_all" and "parseBrazilianDate rt (r c) = None"
  shows "\<not> datePasses rt clock st (Some c) r"
  using assms by (simp add: datePasses_def)

lemma parse_not_a_string:
  "parseBrazilianDate rt None = None"
  "parseBrazilianDate rt (Some (Num x)) = None"
  "parseBrazilianDate rt (Some (Str [])) = None"
  by (simp_all add: parseBrazilianDate_def)

text \<open>
  A string without three slash-separated fields either parses to a valid date or is
  \<^verbatim>\<open>null\<close>: that path checks the date it built.
\<close>

lemma parse_other_checked:
  assumes "length (split_on (CHR ''/'') (hd (split_on (CHR '' '') s))) \<noteq> 3"
  shows "parseBrazilianDate rt (Some (Str s)) \<noteq> Some (DateObj None)"
  using assms by (auto simp: parseBrazilianDate_def Let_def)

text \<open>
  The path of three fields does not: fields that are no numbers give an invalid date
  object, which is not \<^verbatim>\<open>null\<close>, and every comparison with it is false, so the row passes
  the presets that compare dates.
\<close>

lemma invalid_date_passes:
  assumes "parseBrazilianDate rt (r c) = Some (DateObj None)"
    and "datePreset st \<in> {P_7days, P_15days, P_30days, P_custom}"
  shows "datePasses rt clock st (Some c) r"
  using assms
  by (auto simp: datePasses_def dateLess_def dateGreater_def Let_def split: option.splits)

text \<open>
  C2. Whenever a date role is resolved and the preset is not \<^verbatim>\<open>all\<close>, a row whose date
  cell does not parse to a calendar date is to be excluded, under every preset. The code
  does so for a cell that is missing, empty, not a string, or a string of other than
  three fields that does not parse. It does not for three fields that are no numbers:
  the fourth example row, dated \<^verbatim>\<open>a/b/c\<close>, becomes an invalid date and is among the two
  rows that pass the preset of 7 days.
\<close>

theorem invalid_date_row_included:
  "colData exData = Some ''Data'' \<and>
   (exRows ! 3) ''Data'' = Some (Str ''a/b/c'') \<and>
   parseBrazilianDate exRuntime ((exRows ! 3) ''Data'') = Some (DateObj None) \<and>
   includeRow exRuntime exClock exData ex7days (withId (exRows ! 3) 3) \<and>
   map (\<lambda>r. r ''_id'') (filteredRows exRuntime exClock exData ex7days)
     = [Some (Num (Fin 1)), Some (Num (Fin 3))]"
  by code_simp

text \<open>
  C3, as amended. For the presets of 7, 15 and 30 days, at every valid reference moment
  and in every zone of constant offset, a row whose date cell parses to a valid date
  passes the date predicate if and only if that date is not earlier than the reference
  moment itself minus N days: the time of day of the threshold is the wall-clock time of
  the reference moment, not the end of the day.
\<close>

theorem days_preset_threshold:
  assumes "validClock clock" and "c \<noteq> []"
    and "parseBrazilianDate rt (r c) = Some (DateObj (Some t))"
    and "(datePreset st, n) \<in> {(P_7days, 7), (P_15days, 15), (P_30days, 30)}"
  shows "datePasses rt clock st (Some c) r \<longleftrightarrow> clock - n * msPerDay \<le> t"
proof -
  have n: "0 \<le> n" "n \<le> 31" using assms(4) by auto
  have th: "daysAgo rt clock n = DateObj (Some (clock - n * msPerDay))"
    by (rule daysAgo_value[OF assms(1) n])
  from assms(4) consider "datePreset st = P_7days" "n = 7" | "datePreset st = P_15days" "n = 15"
    | "datePreset st = P_30days" "n = 30" by auto
  then show ?thesis
  proof cases
    case 1
    then show ?thesis using th assms(2,3) by (auto simp: datePasses_def dateLess_def)
  next
    case 2
    then show ?thesis using th assms(2,3) by (auto simp: datePasses_def dateLess_def)
  next
    case 3
    then show ?thesis using th assms(2,3) by (auto simp: datePasses_def dateLess_def)
  qed
qed

lemma ex_second_row:
  "parseBrazilianDate exRuntime ((exRows ! 1) ''Data'') = Some (DateObj (Some 1710471600000))"
  by code_simp

text \<open>
  At ten in the morning of 15 March, the row dated 15 March (midnight, local time) is
  later than ten in the morning of 8 March, and passes.
\<close>

theorem days_preset_threshold_witness:
  "validClock exClock \<and>
   parseBrazilianDate exRuntime ((exRows ! 1) ''Data'') = Some (DateObj (Some 1710471600000)) \<and>
   exClock - 7 * msPerDay \<le> 1710471600000 \<and>
   datePasses exRuntime exClock ex7days (Some ''Data'') (exRows ! 1)"
proof -
  have p: "(datePreset ex7days, 7) \<in> {(P_7days, 7), (P_15days, 15), (P_30days, 30::int)}"
    by (simp add: ex7days_def exState_def)
  have c: "''Data'' \<noteq> []" by simp
  have le: "exClock - 7 * msPerDay \<le> 1710471600000"
    by (simp add: exClock_def msPerDay_def)
  have "datePasses exRuntime exClock ex7days (Some ''Data'') (exRows ! 1)"
    using days_preset_threshold[where r = "exRows ! 1" and c = "''Data''",
        OF ex_validClock c ex_second_row p] le by simp
  then show ?thesis using ex_validClock ex_second_row le by simp
qed

text \<open>
  The claim as stated fails: at midnight at the start of 22 March, the row dated 15 March
  is exactly seven days old and passes the preset of 7 days, while it is earlier than the
  end of 22 March minus seven days.
\<close>

theorem days_preset_end_of_day_counterexample:
  "parseBrazilianDate exRuntime ((exRows ! 1) ''Data'') = Some (DateObj (Some 1710471600000)) \<and>
   datePasses exRuntime exMidnight ex7days (colData exData) (exRows ! 1) \<and>
   \<not> daysPasses_spec exRuntime exMidnight 7 (DateObj (Some 1710471600000))"
  by code_simp

text \<open>
  The custom range. With a bound missing, every row whose date cell parses passes. With
  both bounds, a row with a valid date passes when that date lies between the start
  bound as parsed and the end of the local day in which the end bound as parsed falls.
\<close>

lemma custom_missing_bound:
  assumes "datePreset st = P_custom" and "customStartDate st = [] \<or> customEndDate st = []"
    and "parseBrazilianDate rt (r c) = Some d"
  shows "datePasses rt clock st (Some c) r"
  using assms by (auto simp: datePasses_def)

lemma custom_range_interval:
  assumes "datePreset st = P_custom" and "customStartDate st \<noteq> []" and "customEndDate st \<noteq> []"
    and "c \<noteq> []" and "parseBrazilianDate rt (r c) = Some (DateObj (Some t))"
    and "newDateString rt (customStartDate st) = DateObj (Some a)"
    and "newDateString rt (customEndDate st) = DateObj (Some b)"
    and "validClock b"
  shows "datePasses rt clock st (Some c) r \<longleftrightarrow>
           a \<le> t \<and> t \<le> Day (b + LocalTZA rt) * msPerDay + 86399999 - LocalTZA rt"
proof -
  have "setHours rt (DateObj (Some b)) 23 59 59 999
      = DateObj (Some (Day (b + LocalTZA rt) * msPerDay + 86399999 - LocalTZA rt))"
    using endOfToday_value[OF assms(8), of rt] by (simp add: endOfToday_def)
  then show ?thesis
    using assms(1-7) by (auto simp: datePasses_def dateLess_def dateGreater_def Let_def)
qed

text \<open>
  Bounds in ISO form are midnights in UTC. In the zone of offset 0 the interval is the one
  from the start of the start date to the end of the end date; in any other zone it is
  not.
\<close>

lemma parseISODate_midnight: "parseISODate s = Some b \<Longrightarrow> b mod msPerDay = 0"
  by (auto simp: parseISODate_def MakeDate_def Let_def split: if_splits)

lemma custom_range_utc:
  assumes "datePreset st = P_custom" and "customStartDate st \<noteq> []" and "customEndDate st \<noteq> []"
    and "c \<noteq> []" and "parseBrazilianDate rt (r c) = Some (DateObj (Some t))"
    and "newDateString rt (customStartDate st) = DateObj (Some a)"
    and "newDateString rt (customEndDate st) = DateObj (Some b)"
    and "validClock b" and "LocalTZA rt = 0" and "b mod msPerDay = 0"
  shows "datePasses rt clock st (Some c) r \<longleftrightarrow> a \<le> t \<and> t \<le> b + 86399999"
proof -
  have "Day b * msPerDay = b"
    using assms(10) div_mult_mod_eq[of b msPerDay] unfolding Day_def by simp
  then show ?thesis
    using custom_range_interval[where r = r and c = c and clock = clock, OF assms(1-8)] assms(9)
    by simp
qed

text \<open>
  C6. With the preset \<^verbatim>\<open>custom\<close> and both bounds present, a row is to pass exactly when its
  date lies between the start of the start date and the end of the end date. The bounds
  are calendar dates in ISO form, which parse as midnight in UTC, while the rows and the
  end of the day are in local time. Three hours behind UTC, with both bounds on 1 March
  2024, the end bound is one millisecond before midnight of 1 March local time, and the
  first example row, dated 1 March, is excluded: only the row with the invalid date
  passes.
\<close>

theorem custom_range_excludes_bound_day:
  "LocalTZA exRuntime = - 10800000 \<and>
   customStartDate exCustom = ''2024-03-01'' \<and> customEndDate exCustom = ''2024-03-01'' \<and>
   parseBrazilianDate exRuntime ((exRows ! 0) ''Data'') = Some (DateObj (Some 1709262000000)) \<and>
   newDateString exRuntime (customStartDate exCustom) = DateObj (Some 1709251200000) \<and>
   setHours exRuntime (newDateString exRuntime (customEndDate exCustom)) 23 59 59 999
     = DateObj (Some 1709261999999) \<and>
   \<not> datePasses exRuntime exClock exCustom (colData exData) (exRows ! 0) \<and>
   map (\<lambda>r. r ''_id'') (filteredRows exRuntime exClock exData exCustom) = [Some (Num (Fin 3))]"
  by code_simp

end
